theory Spec2Isabelle
  imports Complex_Main "HOL-Library.Word"
begin

section \<open>JavaScript strings\<close>

text \<open>
  A JavaScript string is a sequence of UTF-16 code units, and a regular expression without
  the \<^verbatim>\<open>u\<close> flag works on code units. \<open>ustr\<close> gives the code units of an ASCII
  literal of the source.
\<close>

type_synonym code_unit = "16 word"

type_synonym jsstring = "code_unit list"

definition ustr :: "string \<Rightarrow> jsstring" where
  "ustr s = map of_char s"

definition starts_with :: "jsstring \<Rightarrow> jsstring \<Rightarrow> bool" where
  "starts_with s p \<longleftrightarrow> take (length p) s = p"

text \<open>
  \<^verbatim>\<open>s.indexOf(p)\<close> and \<^verbatim>\<open>s.lastIndexOf(p)\<close>: the first and the last index at
  which \<open>p\<close> occurs in \<open>s\<close>, or \<open>-1\<close>. \<^verbatim>\<open>s.substring(0, e)\<close> reads a negative
  \<open>e\<close> as \<open>0\<close>.
\<close>

fun indexOf :: "jsstring \<Rightarrow> jsstring \<Rightarrow> int" where
  "indexOf [] p = (if p = [] then 0 else -1)"
| "indexOf (x # xs) p =
     (if starts_with (x # xs) p then 0
      else (let r = indexOf xs p in if r < 0 then -1 else r + 1))"

fun lastIndexOf :: "jsstring \<Rightarrow> jsstring \<Rightarrow> int" where
  "lastIndexOf [] p = (if p = [] then 0 else -1)"
| "lastIndexOf (x # xs) p =
     (let r = lastIndexOf xs p in
      if 0 \<le> r then r + 1 else if starts_with (x # xs) p then 0 else -1)"

definition substring0 :: "jsstring \<Rightarrow> int \<Rightarrow> jsstring" where
  "substring0 s e = take (nat e) s"

text \<open>A value spliced into a template literal: \<^verbatim>\<open>undefined\<close> prints as that word.\<close>

definition template :: "jsstring option \<Rightarrow> jsstring" where
  "template v = (case v of None \<Rightarrow> ustr ''undefined'' | Some s \<Rightarrow> s)"

section \<open>Regular expressions\<close>

text \<open>
  The fragment of ECMAScript regular expressions that \<^verbatim>\<open>src/lib/utils.ts\<close> uses:
  literal characters, character classes (\<^verbatim>\<open>.\<close>, \<^verbatim>\<open>\s\<close>, \<^verbatim>\<open>[...]\<close>,
  \<^verbatim>\<open>[^...]\<close>), a class under \<^verbatim>\<open>*\<close>, \<^verbatim>\<open>+\<close> or \<^verbatim>\<open>*?\<close>, capture groups
  and back references. \<^verbatim>\<open>.\<close> matches every code unit but the four line terminators;
  \<^verbatim>\<open>\s\<close> matches white space and line terminators.
\<close>

definition is_line_terminator :: "code_unit \<Rightarrow> bool" where
  "is_line_terminator c \<longleftrightarrow> c = 0x0A \<or> c = 0x0D \<or> c = 0x2028 \<or> c = 0x2029"

definition is_white_space :: "code_unit \<Rightarrow> bool" where
  "is_white_space c \<longleftrightarrow>
     c = 0x09 \<or> c = 0x0B \<or> c = 0x0C \<or> c = 0x20 \<or> c = 0xA0 \<or> c = 0x1680 \<or>
     (0x2000 \<le> c \<and> c \<le> 0x200A) \<or> c = 0x202F \<or> c = 0x205F \<or> c = 0x3000 \<or>
     c = 0xFEFF \<or> is_line_terminator c"

datatype cclass = AnyChar | WhiteSpace | OneOf "(code_unit \<times> code_unit) list"
  | NoneOf "(code_unit \<times> code_unit) list"

fun in_ranges :: "(code_unit \<times> code_unit) list \<Rightarrow> code_unit \<Rightarrow> bool" where
  "in_ranges [] c = False"
| "in_ranges ((lo, hi) # rs) c = ((lo \<le> c \<and> c \<le> hi) \<or> in_ranges rs c)"

fun in_class :: "cclass \<Rightarrow> code_unit \<Rightarrow> bool" where
  "in_class AnyChar c = (\<not> is_line_terminator c)"
| "in_class WhiteSpace c = is_white_space c"
| "in_class (OneOf rs) c = in_ranges rs c"
| "in_class (NoneOf rs) c = (\<not> in_ranges rs c)"

datatype quant = Star | Plus | LazyStar

datatype node = Chars jsstring | Class cclass | Repeat cclass quant | Group nat node
  | Backref nat

type_synonym captures = "nat \<Rightarrow> jsstring option"

text \<open>
  Matching is backtracking with continuations, as the language standard defines it: a node
  is given the rest of the pattern as a continuation \<open>k\<close>, and tries its alternatives in
  order until the continuation succeeds. A quantified class that can take at most \<open>n\<close>
  code units tries \<open>n, n - 1, \<dots>\<close> of them when greedy and \<open>0, 1, \<dots>\<close> when lazy.
\<close>

fun first_some :: "('a \<Rightarrow> 'r option) \<Rightarrow> 'a list \<Rightarrow> 'r option" where
  "first_some f [] = None"
| "first_some f (x # xs) = (case f x of Some r \<Rightarrow> Some r | None \<Rightarrow> first_some f xs)"

fun counts :: "quant \<Rightarrow> nat \<Rightarrow> nat list" where
  "counts Star n = rev [0..<Suc n]"
| "counts Plus n = rev [1..<Suc n]"
| "counts LazyStar n = [0..<Suc n]"

primrec match_node ::
  "node \<Rightarrow> (jsstring \<Rightarrow> captures \<Rightarrow> 'r option) \<Rightarrow> jsstring \<Rightarrow> captures \<Rightarrow> 'r option" where
  "match_node (Chars l) =
     (\<lambda>k s c. if starts_with s l then k (drop (length l) s) c else None)"
| "match_node (Class cl) =
     (\<lambda>k s c. case s of [] \<Rightarrow> None | x # xs \<Rightarrow> if in_class cl x then k xs c else None)"
| "match_node (Repeat cl q) =
     (\<lambda>k s c. first_some (\<lambda>j. k (drop j s) c)
        (counts q (length (takeWhile (in_class cl) s))))"
| "match_node (Group g n) =
     (\<lambda>k s c. match_node n
        (\<lambda>s' c'. k s' (c'(g := Some (take (length s - length s') s)))) s c)"
| "match_node (Backref g) =
     (\<lambda>k s c. case c g of None \<Rightarrow> k s c
        | Some l \<Rightarrow> if starts_with s l then k (drop (length l) s) c else None)"

primrec run ::
  "node list \<Rightarrow> (jsstring \<Rightarrow> captures \<Rightarrow> 'r option) \<Rightarrow> jsstring \<Rightarrow> captures \<Rightarrow> 'r option" where
  "run [] = (\<lambda>k. k)"
| "run (n # ns) = (\<lambda>k. match_node n (run ns k))"

text \<open>
  A match of the pattern that starts at the first code unit of \<open>s\<close>: what is left of
  \<open>s\<close> after it, and the captures.
\<close>

definition match_here :: "node list \<Rightarrow> jsstring \<Rightarrow> (jsstring \<times> captures) option" where
  "match_here p s = run p (\<lambda>rest c. Some (rest, c)) s (\<lambda>_. None)"

text \<open>
  \<^verbatim>\<open>s.replace(p, f)\<close> for a pattern with the \<^verbatim>\<open>g\<close> flag and a function \<open>f\<close>:
  the matches are looked for from left to right, each search starting where the last match
  ended (one code unit further after an empty match); what lies between the matches is
  copied, and each match is replaced by what \<open>f\<close> returns for the matched text and the
  captures.
\<close>

function replace_g ::
  "node list \<Rightarrow> (jsstring \<Rightarrow> captures \<Rightarrow> jsstring) \<Rightarrow> jsstring \<Rightarrow> jsstring" where
  "replace_g p f s =
     (case match_here p s of
        None \<Rightarrow> (case s of [] \<Rightarrow> [] | x # xs \<Rightarrow> x # replace_g p f xs)
      | Some (rest, c) \<Rightarrow>
          (if length s - length rest = 0
           then f [] c @ (case s of [] \<Rightarrow> [] | x # xs \<Rightarrow> x # replace_g p f xs)
           else f (take (length s - length rest) s) c
                  @ replace_g p f (drop (length s - length rest) s)))"
  by pat_completeness auto
termination
  by (relation "measure (\<lambda>(p, f, s). length s)") auto

declare replace_g.simps [simp del]

section \<open>Rendering masked text: \<^verbatim>\<open>src/lib/utils.ts\<close>\<close>

text \<open>
  \<^verbatim>\<open>/\{ID=([^,}]+),\s*TXT=(['"])(.*?)\2\s*\}/g\<close>, the pattern of
  \<^verbatim>\<open>renderMaskedHtml\<close> and of \<^verbatim>\<open>extractPlaceholdersFromMasked\<close>.
\<close>

definition detailedPattern :: "node list" where
  "detailedPattern =
     [Chars (ustr ''{ID=''), Group 1 (Repeat (NoneOf [(0x2C, 0x2C), (0x7D, 0x7D)]) Plus),
      Chars (ustr '',''), Repeat WhiteSpace Star, Chars (ustr ''TXT=''),
      Group 2 (Class (OneOf [(0x27, 0x27), (0x22, 0x22)])),
      Group 3 (Repeat AnyChar LazyStar), Backref 2, Repeat WhiteSpace Star,
      Chars (ustr ''}'')]"

text \<open>\<^verbatim>\<open>/\{[A-Z_][A-Z0-9_]*\}/g\<close>\<close>

definition simplePattern :: "node list" where
  "simplePattern =
     [Chars (ustr ''{''), Class (OneOf [(0x41, 0x5A), (0x5F, 0x5F)]),
      Repeat (OneOf [(0x41, 0x5A), (0x30, 0x39), (0x5F, 0x5F)]) Star, Chars (ustr ''}'')]"

datatype render_mode = Placeholders | Blocks

definition span_open :: jsstring where
  "span_open = ustr ''<span class=\"mask-chip\">''"

definition span_close :: jsstring where
  "span_close = ustr ''</span>''"

text \<open>
  The second \<^verbatim>\<open>replace\<close> runs on the result of the first, and its callback reads that
  same string: \<^verbatim>\<open>result\<close> is assigned only when the second \<^verbatim>\<open>replace\<close> returns.
\<close>

definition renderMaskedHtml :: "jsstring \<Rightarrow> render_mode \<Rightarrow> jsstring" where
  "renderMaskedHtml text mode =
     (let result = replace_g detailedPattern
            (\<lambda>fullMatch c.
               if mode = Placeholders then span_open @ template (c 3) @ span_close
               else span_open @ fullMatch @ span_close) text
      in replace_g simplePattern
           (\<lambda>match c.
              let beforeMatch = substring0 result (indexOf result match);
                  lastSpanStart = lastIndexOf beforeMatch span_open;
                  lastSpanEnd = lastIndexOf beforeMatch span_close
              in if lastSpanStart > lastSpanEnd then match
                 else span_open @ match @ span_close) result)"

definition extractPlaceholdersFromMasked :: "jsstring \<Rightarrow> jsstring" where
  "extractPlaceholdersFromMasked text =
     replace_g detailedPattern (\<lambda>_ c. template (c 3)) text"

text \<open>
  A string is recognized as one simple token when the simple pattern matches it from its
  first code unit to its last.
\<close>

definition recognized_simple :: "jsstring \<Rightarrow> bool" where
  "recognized_simple s =
     (case match_here simplePattern s of None \<Rightarrow> False | Some (rest, c) \<Rightarrow> rest = [])"

definition is_upper :: "code_unit \<Rightarrow> bool" where
  "is_upper c \<longleftrightarrow> 0x41 \<le> c \<and> c \<le> 0x5A"

definition is_digit :: "code_unit \<Rightarrow> bool" where
  "is_digit c \<longleftrightarrow> 0x30 \<le> c \<and> c \<le> 0x39"

definition name_start :: "code_unit \<Rightarrow> bool" where
  "name_start c \<longleftrightarrow> is_upper c \<or> c = 0x5F"

definition name_char :: "code_unit \<Rightarrow> bool" where
  "name_char c \<longleftrightarrow> is_upper c \<or> is_digit c \<or> c = 0x5F"

text \<open>
  The wire grammar of the specification, \<^verbatim>\<open>simple := '{' [A-Z][A-Z0-9_]* '}'\<close>, written
  after its words to be compared with the pattern of the code.
\<close>

fun wire_simple :: "jsstring \<Rightarrow> bool" where
  "wire_simple (b # h # r) \<longleftrightarrow>
     b = 0x7B \<and> is_upper h \<and> r \<noteq> [] \<and> last r = 0x7D \<and> list_all name_char (butlast r)"
| "wire_simple _ \<longleftrightarrow> False"

text \<open>
  The text of a detailed token as the claims write it,
  \<^verbatim>\<open>{ID=<id>, TXT=<quote><value><quote>}\<close>.
\<close>

definition detailed_token :: "jsstring \<Rightarrow> code_unit \<Rightarrow> jsstring \<Rightarrow> jsstring" where
  "detailed_token ident q v = ustr ''{ID='' @ ident @ ustr '', TXT='' @ q # v @ q # ustr ''}''"






section \<open>Values at run time\<close>

text \<open>
  TypeScript types are erased at run time, and \<^verbatim>\<open>handleApiResponse\<close> takes its
  argument as \<^verbatim>\<open>any\<close>: what the server sends is modelled as a JavaScript value. A
  number stands for the real it denotes. An object is the list of its own properties.
\<close>

datatype jsval = JUndefined | JNull | JBool bool | JNum real | JStr jsstring
  | JArr "jsval list" | JObj "(jsstring \<times> jsval) list"

text \<open>What \<^verbatim>\<open>a || b\<close> tests: every value is truthy but the falsy ones.\<close>

fun truthy :: "jsval \<Rightarrow> bool" where
  "truthy JUndefined = False"
| "truthy JNull = False"
| "truthy (JBool b) = b"
| "truthy (JNum x) = (x \<noteq> 0)"
| "truthy (JStr s) = (s \<noteq> [])"
| "truthy (JArr xs) = True"
| "truthy (JObj kvs) = True"

definition js_or :: "jsval \<Rightarrow> jsval \<Rightarrow> jsval" where
  "js_or a b = (if truthy a then a else b)"

text \<open>
  \<^verbatim>\<open>class AppError extends Error\<close>, with the arguments of its constructor
  (\<^verbatim>\<open>message\<close>, \<^verbatim>\<open>code?\<close>, \<^verbatim>\<open>status?\<close>), and the \<^verbatim>\<open>TypeError\<close> that reading a
  property of \<^verbatim>\<open>null\<close> or \<^verbatim>\<open>undefined\<close> throws.
\<close>

datatype js_error = AppError jsval "jsstring option" "nat option" | TypeError

text \<open>
  \<^verbatim>\<open>v.k\<close> and \<^verbatim>\<open>v?.k\<close>, for the keys the code reads (\<^verbatim>\<open>success\<close>,
  \<^verbatim>\<open>error\<close>, \<^verbatim>\<open>message\<close>, \<^verbatim>\<open>data\<close>, \<^verbatim>\<open>masked_text\<close>,
  \<^verbatim>\<open>entities_found\<close>, \<^verbatim>\<open>processing_time\<close>): none of them is a property of a
  string, a number, a boolean or an array.
\<close>

fun member :: "jsval \<Rightarrow> jsstring \<Rightarrow> js_error + jsval" where
  "member JUndefined k = Inl TypeError"
| "member JNull k = Inl TypeError"
| "member (JObj kvs) k = Inr (case map_of kvs k of None \<Rightarrow> JUndefined | Some v \<Rightarrow> v)"
| "member v k = Inr JUndefined"

definition opt_member :: "jsval \<Rightarrow> jsstring \<Rightarrow> jsval" where
  "opt_member v k = (case member v k of Inl e \<Rightarrow> JUndefined | Inr x \<Rightarrow> x)"

text \<open>
  A function that throws returns \<open>Inl\<close> of the error; \<open>andThen\<close> is the sequencing of
  statements (and of \<^verbatim>\<open>await\<close>): the first error ends the function.
\<close>

definition andThen :: "'e + 'a \<Rightarrow> ('a \<Rightarrow> 'e + 'b) \<Rightarrow> 'e + 'b" where
  "andThen r f = (case r of Inl e \<Rightarrow> Inl e | Inr x \<Rightarrow> f x)"

text \<open>\<^verbatim>\<open>Array.isArray(v)\<close>: whether a value is a list.\<close>

fun is_list :: "jsval \<Rightarrow> bool" where
  "is_list (JArr xs) = True"
| "is_list v = False"

section \<open>The API client: \<^verbatim>\<open>src/lib/api.ts\<close>\<close>

text \<open>
  The server, seen through axios, is a parameter of every operation: it gives each request
  its outcome. axios fulfils the promise with the response when the status is a success
  status, and rejects it with an error otherwise (an error status, a timeout, no answer);
  the error carries the response when there was one. URLs are relative to the base URL.
\<close>

record axios_response =
  data :: jsval
  status :: nat

record axios_error =
  err_message :: jsstring
  err_code :: "jsstring option"
  err_response :: "axios_response option"

datatype axios_outcome = Fulfilled axios_response | Rejected axios_error

datatype http_method = GET | POST | PUT | DELETE

record request =
  http_method :: http_method
  url :: jsstring
  body :: jsval

type_synonym server = "request \<Rightarrow> axios_outcome"

text \<open>The Russian literal of the response interceptor, "unknown error", in code units.\<close>

definition unknown_error :: jsstring where
  "unknown_error =
     [0x041D, 0x0435, 0x0438, 0x0437, 0x0432, 0x0435, 0x0441, 0x0442, 0x043D, 0x0430, 0x044F,
      0x0020, 0x043E, 0x0448, 0x0438, 0x0431, 0x043A, 0x0430]"

text \<open>
  \<^verbatim>\<open>api.interceptors.response.use\<close>: a response is passed on; an error is thrown again
  as an \<^verbatim>\<open>AppError\<close>. (The request interceptor only logs.)
\<close>

definition response_interceptor :: "axios_outcome \<Rightarrow> js_error + axios_response" where
  "response_interceptor outcome =
     (case outcome of
        Fulfilled response \<Rightarrow> Inr response
      | Rejected error \<Rightarrow>
          (let message =
                 js_or (js_or (case err_response error of None \<Rightarrow> JUndefined
                               | Some r \<Rightarrow> opt_member (data r) (ustr ''message''))
                          (JStr (err_message error)))
                   (JStr unknown_error);
               status' = map_option status (err_response error);
               code = err_code error
           in Inl (AppError message code status')))"

definition api_request :: "server \<Rightarrow> request \<Rightarrow> js_error + axios_response" where
  "api_request srv req = response_interceptor (srv req)"

definition handleApiResponse :: "axios_response \<Rightarrow> js_error + jsval" where
  "handleApiResponse response =
     (if opt_member (data response) (ustr ''success'') = JBool False
      then andThen (member (data response) (ustr ''error''))
             (\<lambda>error. Inl (AppError (js_or error (JStr (ustr ''API error''))) None None))
      else Inr (data response))"

text \<open>
  \<^verbatim>\<open>TextProcessingInput\<close> is \<^verbatim>\<open>{text, systemPrompt?}\<close>; a field that is
  \<^verbatim>\<open>undefined\<close> is left out of the JSON body.
\<close>

record TextProcessingInput =
  input_text :: jsstring
  input_systemPrompt :: "jsstring option"

definition optional_field :: "string \<Rightarrow> jsstring option \<Rightarrow> (jsstring \<times> jsval) list" where
  "optional_field k v = (case v of None \<Rightarrow> [] | Some s \<Rightarrow> [(ustr k, JStr s)])"

definition TextProcessingInput_json :: "TextProcessingInput \<Rightarrow> jsval" where
  "TextProcessingInput_json d =
     JObj ((ustr ''text'', JStr (input_text d))
           # optional_field ''systemPrompt'' (input_systemPrompt d))"

record MaskingResult =
  maskedText :: jsval
  entitiesFound :: jsval
  processingTime :: jsval

definition maskText :: "server \<Rightarrow> TextProcessingInput \<Rightarrow> js_error + MaskingResult" where
  "maskText srv d =
     andThen (api_request srv
        \<lparr>http_method = POST, url = ustr ''/mask-text'', body = TextProcessingInput_json d\<rparr>)
       (\<lambda>response.
     andThen (handleApiResponse response) (\<lambda>apiResult.
     andThen (member apiResult (ustr ''masked_text'')) (\<lambda>masked_text.
     andThen (member apiResult (ustr ''entities_found'')) (\<lambda>entities_found.
     andThen (member apiResult (ustr ''processing_time'')) (\<lambda>processing_time.
       Inr \<lparr>maskedText = masked_text,
            entitiesFound = js_or entities_found (JArr []),
            processingTime = processing_time\<rparr>)))))"

definition demaskText :: "server \<Rightarrow> jsstring \<Rightarrow> js_error + jsval" where
  "demaskText srv maskedText' =
     andThen (api_request srv
        \<lparr>http_method = POST, url = ustr ''/demask-text'',
         body = JObj [(ustr ''maskedText'', JStr maskedText')]\<rparr>)
       handleApiResponse"

definition processWithOpenRouter :: "server \<Rightarrow> jsstring \<Rightarrow> jsstring \<Rightarrow> js_error + jsval" where
  "processWithOpenRouter srv text' systemPrompt' =
     andThen (api_request srv
        \<lparr>http_method = POST, url = ustr ''/process-openrouter'',
         body = JObj [(ustr ''text'', JStr text'), (ustr ''systemPrompt'', JStr systemPrompt')]\<rparr>)
       (\<lambda>response.
     andThen (handleApiResponse response) (\<lambda>result.
       case result of
         JStr s \<Rightarrow> Inr result
       | _ \<Rightarrow> andThen (member result (ustr ''data'')) (\<lambda>d. Inr (js_or d (JStr [])))))"

definition getSensitiveEntities :: "server \<Rightarrow> js_error + jsval" where
  "getSensitiveEntities srv =
     andThen (api_request srv
        \<lparr>http_method = GET, url = ustr ''/sensitive-entities'', body = JUndefined\<rparr>)
       handleApiResponse"

record SensitiveEntityInput =
  input_name :: jsstring
  input_placeholder :: jsstring

definition addSensitiveEntity :: "server \<Rightarrow> SensitiveEntityInput \<Rightarrow> js_error + jsval" where
  "addSensitiveEntity srv d =
     andThen (api_request srv
        \<lparr>http_method = POST, url = ustr ''/sensitive-entities'',
         body = JObj [(ustr ''name'', JStr (input_name d)),
                      (ustr ''placeholder'', JStr (input_placeholder d))]\<rparr>)
       handleApiResponse"

record PartialSensitiveEntityInput =
  partial_name :: "jsstring option"
  partial_placeholder :: "jsstring option"

definition updateSensitiveEntity ::
  "server \<Rightarrow> jsstring \<Rightarrow> PartialSensitiveEntityInput \<Rightarrow> js_error + jsval" where
  "updateSensitiveEntity srv ident d =
     andThen (api_request srv
        \<lparr>http_method = PUT, url = ustr ''/sensitive-entities/'' @ ident,
         body = JObj (optional_field ''name'' (partial_name d)
                      @ optional_field ''placeholder'' (partial_placeholder d))\<rparr>)
       handleApiResponse"

definition deleteSensitiveEntity :: "server \<Rightarrow> jsstring \<Rightarrow> js_error + jsval" where
  "deleteSensitiveEntity srv ident =
     andThen (api_request srv
        \<lparr>http_method = DELETE, url = ustr ''/sensitive-entities/'' @ ident, body = JUndefined\<rparr>)
       handleApiResponse"

definition getSystemPrompt :: "server \<Rightarrow> js_error + jsval" where
  "getSystemPrompt srv =
     andThen (api_request srv
        \<lparr>http_method = GET, url = ustr ''/system-prompt'', body = JUndefined\<rparr>)
       (\<lambda>response.
     andThen (handleApiResponse response) (\<lambda>result.
     andThen (member result (ustr ''data'')) (\<lambda>d. Inr (js_or d (JStr [])))))"

definition updateSystemPrompt :: "server \<Rightarrow> jsstring \<Rightarrow> js_error + jsval" where
  "updateSystemPrompt srv prompt =
     andThen (api_request srv
        \<lparr>http_method = PUT, url = ustr ''/system-prompt'',
         body = JObj [(ustr ''prompt'', JStr prompt)]\<rparr>)
       (\<lambda>response.
     andThen (handleApiResponse response) (\<lambda>result.
     andThen (member result (ustr ''data'')) (\<lambda>d. Inr (js_or d (JStr [])))))"

definition healthCheck :: "server \<Rightarrow> js_error + jsval" where
  "healthCheck srv =
     andThen (api_request srv \<lparr>http_method = GET, url = ustr ''/health'', body = JUndefined\<rparr>)
       handleApiResponse"

text \<open>
  The ten operations of \<^verbatim>\<open>apiClient\<close> with their arguments, the one request that each of
  them sends, and the error that a call throws, if it throws.
\<close>

datatype api_call =
    MaskText TextProcessingInput
  | DemaskText jsstring
  | ProcessWithOpenRouter jsstring jsstring
  | GetSensitiveEntities
  | AddSensitiveEntity SensitiveEntityInput
  | UpdateSensitiveEntity jsstring PartialSensitiveEntityInput
  | DeleteSensitiveEntity jsstring
  | GetSystemPrompt
  | UpdateSystemPrompt jsstring
  | HealthCheck

fun request_of :: "api_call \<Rightarrow> request" where
  "request_of (MaskText d) =
     \<lparr>http_method = POST, url = ustr ''/mask-text'', body = TextProcessingInput_json d\<rparr>"
| "request_of (DemaskText t) =
     \<lparr>http_method = POST, url = ustr ''/demask-text'',
      body = JObj [(ustr ''maskedText'', JStr t)]\<rparr>"
| "request_of (ProcessWithOpenRouter t p) =
     \<lparr>http_method = POST, url = ustr ''/process-openrouter'',
      body = JObj [(ustr ''text'', JStr t), (ustr ''systemPrompt'', JStr p)]\<rparr>"
| "request_of GetSensitiveEntities =
     \<lparr>http_method = GET, url = ustr ''/sensitive-entities'', body = JUndefined\<rparr>"
| "request_of (AddSensitiveEntity e) =
     \<lparr>http_method = POST, url = ustr ''/sensitive-entities'',
      body = JObj [(ustr ''name'', JStr (input_name e)),
                   (ustr ''placeholder'', JStr (input_placeholder e))]\<rparr>"
| "request_of (UpdateSensitiveEntity i u) =
     \<lparr>http_method = PUT, url = ustr ''/sensitive-entities/'' @ i,
      body = JObj (optional_field ''name'' (partial_name u)
                   @ optional_field ''placeholder'' (partial_placeholder u))\<rparr>"
| "request_of (DeleteSensitiveEntity i) =
     \<lparr>http_method = DELETE, url = ustr ''/sensitive-entities/'' @ i, body = JUndefined\<rparr>"
| "request_of GetSystemPrompt =
     \<lparr>http_method = GET, url = ustr ''/system-prompt'', body = JUndefined\<rparr>"
| "request_of (UpdateSystemPrompt p) =
     \<lparr>http_method = PUT, url = ustr ''/system-prompt'', body = JObj [(ustr ''prompt'', JStr p)]\<rparr>"
| "request_of HealthCheck = \<lparr>http_method = GET, url = ustr ''/health'', body = JUndefined\<rparr>"

definition thrown :: "js_error + 'a \<Rightarrow> js_error option" where
  "thrown r = (case r of Inl e \<Rightarrow> Some e | Inr x \<Rightarrow> None)"

fun thrown_by :: "server \<Rightarrow> api_call \<Rightarrow> js_error option" where
  "thrown_by srv (MaskText d) = thrown (maskText srv d)"
| "thrown_by srv (DemaskText t) = thrown (demaskText srv t)"
| "thrown_by srv (ProcessWithOpenRouter t p) = thrown (processWithOpenRouter srv t p)"
| "thrown_by srv GetSensitiveEntities = thrown (getSensitiveEntities srv)"
| "thrown_by srv (AddSensitiveEntity e) = thrown (addSensitiveEntity srv e)"
| "thrown_by srv (UpdateSensitiveEntity i u) = thrown (updateSensitiveEntity srv i u)"
| "thrown_by srv (DeleteSensitiveEntity i) = thrown (deleteSensitiveEntity srv i)"
| "thrown_by srv GetSystemPrompt = thrown (getSystemPrompt srv)"
| "thrown_by srv (UpdateSystemPrompt p) = thrown (updateSystemPrompt srv p)"
| "thrown_by srv HealthCheck = thrown (healthCheck srv)"

section \<open>Masking two fields: \<^verbatim>\<open>handleMaskText\<close> of \<^verbatim>\<open>SafeDialogApp\<close>\<close>

text \<open>\<^verbatim>\<open>s.trim()\<close> removes white space and line terminators at both ends.\<close>

definition trim :: "jsstring \<Rightarrow> jsstring" where
  "trim s = rev (dropWhile is_white_space (rev (dropWhile is_white_space s)))"

definition str_or :: "jsstring \<Rightarrow> jsstring \<Rightarrow> jsstring" where
  "str_or a b = (if a \<noteq> [] then a else b)"

text \<open>
  \<^verbatim>\<open>Promise.all\<close>: fulfilled with all the values when every promise is fulfilled, and
  rejected with the reason of the promise that is rejected first otherwise. Which promise
  settles first depends on the network, so the order is a parameter: the promises settle in
  the order \<open>settle_order\<close> lists their indices, and the ones it leaves out settle after
  them, in the order of the list.
\<close>

definition rejections :: "nat list \<Rightarrow> (js_error + 'a) list \<Rightarrow> js_error list" where
  "rejections settled ps =
     concat (map (\<lambda>i. if i < length ps then (case ps ! i of Inl e \<Rightarrow> [e] | Inr x \<Rightarrow> []) else [])
       settled)"

definition promise_all :: "nat list \<Rightarrow> (js_error + 'a) list \<Rightarrow> js_error + 'a list" where
  "promise_all settle_order ps =
     (case rejections (settle_order @ [0..<length ps]) ps of
        e # es \<Rightarrow> Inl e
      | [] \<Rightarrow> Inr (concat (map (\<lambda>p. case p of Inl e \<Rightarrow> [] | Inr x \<Rightarrow> [x]) ps)))"

text \<open>
  Which of two promises settles first: the first of the indices 0 and 1 that \<open>settle_order\<close>
  lists, and the promise 0 when it lists neither.
\<close>

fun first_settled :: "nat list \<Rightarrow> nat" where
  "first_settled [] = 0"
| "first_settled (i # settle_order) = (if i < 2 then i else first_settled settle_order)"

datatype text_view = Original | Masked

datatype result_view = ResultMasked | ResultDemasked

record ViewMode =
  view_query :: text_view
  view_context :: text_view
  view_detail :: bool
  view_result :: result_view

text \<open>
  \<^verbatim>\<open>AppState\<close>. The masked texts hold what the server sent. \<open>error\<close> stands for the
  message of the error that was caught: the model keeps the error itself.
\<close>

record AppState =
  queryText :: jsstring
  contextText :: jsstring
  maskedQueryText :: jsval
  maskedContextText :: jsval
  resultText :: jsval
  demaskedResultText :: jsval
  maskingPrompt :: jsstring
  systemPrompt :: jsstring
  viewMode :: ViewMode
  isProcessing :: bool
  isDemaskingResult :: bool
  error :: "js_error option"

datatype field_type = QueryField | ContextField

text \<open>
  \<^verbatim>\<open>useMaskText().mutateAsync\<close>: the promise of \<^verbatim>\<open>apiClient.maskText\<close>; the
  callbacks of the hook log and show a toast. Toasts are not part of \<^verbatim>\<open>AppState\<close> and
  are left out of the model.
\<close>

definition useMaskText_mutateAsync ::
  "server \<Rightarrow> TextProcessingInput \<Rightarrow> js_error + MaskingResult" where
  "useMaskText_mutateAsync srv d = maskText srv d"

definition apply_result :: "field_type \<times> MaskingResult \<Rightarrow> AppState \<Rightarrow> AppState" where
  "apply_result tr newState =
     (case tr of
        (QueryField, r) \<Rightarrow> newState\<lparr>maskedQueryText := maskedText r\<rparr>
      | (ContextField, r) \<Rightarrow> newState\<lparr>maskedContextText := maskedText r\<rparr>)"

definition handleMaskText :: "server \<Rightarrow> nat list \<Rightarrow> AppState \<Rightarrow> AppState" where
  "handleMaskText srv settle_order appState =
     (let hasQueryText = (trim (queryText appState) \<noteq> []);
          hasContextText = (trim (contextText appState) \<noteq> [])
      in if \<not> hasQueryText \<and> \<not> hasContextText then appState
         else
           (let promises =
                  (if hasQueryText
                   then [map_sum id (Pair QueryField)
                           (useMaskText_mutateAsync srv
                              \<lparr>input_text = queryText appState,
                               input_systemPrompt = Some (str_or (maskingPrompt appState) [])\<rparr>)]
                   else [])
                  @ (if hasContextText
                     then [map_sum id (Pair ContextField)
                             (useMaskText_mutateAsync srv
                                \<lparr>input_text = contextText appState,
                                 input_systemPrompt = Some (str_or (maskingPrompt appState) [])\<rparr>)]
                     else [])
            in case promise_all settle_order promises of
                 Inr results \<Rightarrow> fold apply_result results (appState\<lparr>error := None\<rparr>)
               | Inl e \<Rightarrow> appState\<lparr>error := Some e\<rparr>))"

section \<open>The dictionary hooks: \<^verbatim>\<open>hooks/useApi.ts\<close>\<close>

text \<open>
  react-query (version 3) is a library outside the repository; the model follows its source.
  The client caches each query under its key: the data, the time of the last successful
  fetch (0 when there was none), whether the query was invalidated, whether a fetch is in
  flight, how many mounted components observe it, and the function that fetches it. Time is
  in milliseconds.
\<close>

record query_state =
  query_data :: jsval
  dataUpdatedAt :: nat
  isInvalidated :: bool
  isFetching :: bool
  observers :: nat
  queryFn :: "server \<Rightarrow> js_error + jsval"

type_synonym query_cache = "jsstring list \<Rightarrow> query_state option"

definition queryKeys_sensitiveEntities :: "jsstring list" where
  "queryKeys_sensitiveEntities = [ustr ''sensitive-entities'']"

definition partialMatchKey :: "jsstring list \<Rightarrow> jsstring list \<Rightarrow> bool" where
  "partialMatchKey queryKey filterKey \<longleftrightarrow> take (length filterKey) queryKey = filterKey"

text \<open>
  \<^verbatim>\<open>invalidateQueries(key)\<close> marks every cached query whose key begins with \<open>key\<close> as
  invalidated, and starts a refetch of those that are observed. It returns the promise of the
  refetch at once; the refetch settles later.
\<close>

definition invalidateQueries :: "jsstring list \<Rightarrow> query_cache \<Rightarrow> query_cache" where
  "invalidateQueries filterKey cache =
     (\<lambda>queryKey. if partialMatchKey queryKey filterKey
        then map_option
               (\<lambda>q. q\<lparr>isInvalidated := True, isFetching := isFetching q \<or> 0 < observers q\<rparr>)
               (cache queryKey)
        else cache queryKey)"

text \<open>
  \<^verbatim>\<open>timeUntilStale\<close> is \<^verbatim>\<open>Math.max(updatedAt + staleTime - Date.now(), 0)\<close>, and
  \<^verbatim>\<open>isStaleByTime\<close> is
  \<^verbatim>\<open>isInvalidated || !dataUpdatedAt || !timeUntilStale(dataUpdatedAt, staleTime)\<close>.
\<close>

definition timeUntilStale :: "nat \<Rightarrow> nat \<Rightarrow> nat \<Rightarrow> nat" where
  "timeUntilStale updatedAt staleTime now = updatedAt + staleTime - now"

definition isStaleByTime :: "query_state \<Rightarrow> nat \<Rightarrow> nat \<Rightarrow> bool" where
  "isStaleByTime q staleTime now \<longleftrightarrow>
     isInvalidated q \<or> dataUpdatedAt q = 0 \<or> timeUntilStale (dataUpdatedAt q) staleTime now = 0"

text \<open>
  A component that mounts fetches a query that was never fetched, and refetches one that is
  stale (\<^verbatim>\<open>enabled\<close> and \<^verbatim>\<open>refetchOnMount\<close> have their defaults).
\<close>

definition shouldFetchOnMount :: "query_state \<Rightarrow> nat \<Rightarrow> nat \<Rightarrow> bool" where
  "shouldFetchOnMount q staleTime now \<longleftrightarrow>
     dataUpdatedAt q = 0 \<or> (0 < dataUpdatedAt q \<and> isStaleByTime q staleTime now)"

definition new_query :: "(server \<Rightarrow> js_error + jsval) \<Rightarrow> query_state" where
  "new_query fn =
     \<lparr>query_data = JUndefined, dataUpdatedAt = 0, isInvalidated = False, isFetching = False,
      observers = 0, queryFn = fn\<rparr>"

text \<open>
  \<^verbatim>\<open>useQuery(key, fn, {staleTime})\<close> in a component that mounts at the time \<open>now\<close>. The
  component is given the cached data at once, stale or not (\<^verbatim>\<open>undefined\<close> when nothing is
  cached); then the observer subscribes, and a fetch is started in the background when the
  query should be fetched on mount. The result is the data given to the component and the
  cache with the observer subscribed.
\<close>

definition useQuery ::
  "jsstring list \<Rightarrow> (server \<Rightarrow> js_error + jsval) \<Rightarrow> nat \<Rightarrow> nat \<Rightarrow> query_cache
     \<Rightarrow> jsval \<times> query_cache" where
  "useQuery queryKey fn staleTime now cache =
     (let q = (case cache queryKey of None \<Rightarrow> new_query fn | Some q \<Rightarrow> q\<lparr>queryFn := fn\<rparr>)
      in (query_data q,
          cache(queryKey \<mapsto>
            q\<lparr>observers := Suc (observers q),
              isFetching := isFetching q \<or> shouldFetchOnMount q staleTime now\<rparr>)))"

text \<open>
  The fetch in flight of a query settles at the time \<open>now\<close>: when the query function
  succeeds the cache takes its data, with the time, and the query is no longer invalidated;
  when it fails the cached data stay as they are.
\<close>

definition fetch_settles :: "jsstring list \<Rightarrow> server \<Rightarrow> nat \<Rightarrow> query_cache \<Rightarrow> query_cache" where
  "fetch_settles queryKey srv now cache =
     (case cache queryKey of
        None \<Rightarrow> cache
      | Some q \<Rightarrow>
          if isFetching q
          then (case queryFn q srv of
                  Inr d \<Rightarrow> cache(queryKey \<mapsto>
                    q\<lparr>query_data := d, dataUpdatedAt := now, isInvalidated := False,
                      isFetching := False\<rparr>)
                | Inl e \<Rightarrow> cache(queryKey \<mapsto> q\<lparr>isFetching := False\<rparr>))
          else cache)"

definition useSensitiveEntities :: "nat \<Rightarrow> query_cache \<Rightarrow> jsval \<times> query_cache" where
  "useSensitiveEntities =
     useQuery queryKeys_sensitiveEntities getSensitiveEntities (5 * 60 * 1000)"

text \<open>
  \<^verbatim>\<open>useMutation(mutationFn, {onSuccess, onError}).mutateAsync\<close>: the mutation function
  runs; when it succeeds \<^verbatim>\<open>onSuccess\<close> is called with its result, and the promise is
  fulfilled once the callback has returned, or rejected with what the callback throws. The
  \<^verbatim>\<open>onError\<close> callbacks of the hooks only show a toast.
\<close>

definition useMutation ::
  "(server \<Rightarrow> 'v \<Rightarrow> js_error + 'r) \<Rightarrow> ('r \<Rightarrow> query_cache \<Rightarrow> (js_error + unit) \<times> query_cache)
     \<Rightarrow> server \<Rightarrow> 'v \<Rightarrow> query_cache \<Rightarrow> (js_error + 'r) \<times> query_cache" where
  "useMutation mutationFn onSuccess srv variables cache =
     (case mutationFn srv variables of
        Inl e \<Rightarrow> (Inl e, cache)
      | Inr r \<Rightarrow>
          (case onSuccess r cache of
             (Inl e, cache') \<Rightarrow> (Inl e, cache')
           | (Inr u, cache') \<Rightarrow> (Inr r, cache')))"

text \<open>
  The \<^verbatim>\<open>onSuccess\<close> callbacks of the dictionary hooks call \<^verbatim>\<open>invalidateQueries\<close> without
  waiting for its promise, and then show a toast; the toasts of add and update read the
  \<^verbatim>\<open>name\<close> of the entity that the server returned. Toasts are left out of the model.
\<close>

definition useAddSensitiveEntity ::
  "server \<Rightarrow> SensitiveEntityInput \<Rightarrow> query_cache \<Rightarrow> (js_error + jsval) \<times> query_cache" where
  "useAddSensitiveEntity =
     useMutation addSensitiveEntity
       (\<lambda>newEntity cache.
          (andThen (member newEntity (ustr ''name'')) (\<lambda>name. Inr ()),
           invalidateQueries queryKeys_sensitiveEntities cache))"

definition useUpdateSensitiveEntity ::
  "server \<Rightarrow> jsstring \<times> PartialSensitiveEntityInput \<Rightarrow> query_cache
     \<Rightarrow> (js_error + jsval) \<times> query_cache" where
  "useUpdateSensitiveEntity =
     useMutation (\<lambda>srv (ident, d). updateSensitiveEntity srv ident d)
       (\<lambda>updatedEntity cache.
          (andThen (member updatedEntity (ustr ''name'')) (\<lambda>name. Inr ()),
           invalidateQueries queryKeys_sensitiveEntities cache))"

definition useDeleteSensitiveEntity ::
  "server \<Rightarrow> jsstring \<Rightarrow> query_cache \<Rightarrow> (js_error + jsval) \<times> query_cache" where
  "useDeleteSensitiveEntity =
     useMutation deleteSensitiveEntity
       (\<lambda>_ cache. (Inr (), invalidateQueries queryKeys_sensitiveEntities cache))"

section \<open>The masking engine of the server\<close>

text \<open>
  The client only posts texts to \<^verbatim>\<open>/mask-text\<close> and \<^verbatim>\<open>/demask-text\<close>; the engine that
  answers there is \<^verbatim>\<open>api_server.py\<close>, which is not among the sources. What it does with a
  text is therefore taken from sections 3, 4.1 and 4.3 to 4.5 of the specification.
\<close>

text \<open>
  Modelled from the spec: the \<^verbatim>\<open>SensitiveEntity\<close> of section 3, as the missing
  \<^verbatim>\<open>api_server.py\<close> holds it: an opaque identifier, the original value \<^verbatim>\<open>name\<close>, the label
  \<^verbatim>\<open>placeholder\<close> and an optional category.
\<close>

record SensitiveEntity =
  entity_id :: jsstring
  entity_name :: jsstring
  entity_placeholder :: jsstring
  entity_category :: "jsstring option"

text \<open>
  Modelled from the spec: a detected span of section 4.3, as the detector gives it to the missing
  encoder of \<^verbatim>\<open>api_server.py\<close>: a start offset in the original text, the original substring and
  an optional category.
\<close>

record detected_span =
  span_start :: nat
  span_value :: jsstring
  span_category :: "jsstring option"

text \<open>
  Modelled from the spec: the two answers of the external detector in section 4.4 (the detector
  is called by the missing \<^verbatim>\<open>api_server.py\<close>): \<open>either ready-made masked text or a list of raw
  spans\<close>.
\<close>

datatype detector_output =
  MaskedWithEntities jsstring "SensitiveEntity list" | RawSpans "detected_span list"

text \<open>
  Modelled from the spec: the two detection failures of section 7, raised by the missing
  \<^verbatim>\<open>api_server.py\<close>.
\<close>

datatype engine_error = DetectionFailedError | DetectionTimeoutError

text \<open>
  Modelled from the spec: the \<^verbatim>\<open>MaskingResult\<close> of section 3 as the missing \<^verbatim>\<open>api_server.py\<close>
  builds it, before it is sent to the client.
\<close>

record EncodedResult =
  encoded_maskedText :: jsstring
  encoded_entitiesFound :: "SensitiveEntity list"
  encoded_processingTime :: "nat option"

text \<open>
  Modelled from the spec: the end of the half-open range \<open>[start, end)\<close> that a span of the
  missing encoder covers in the original text.
\<close>

definition span_end :: "detected_span \<Rightarrow> nat" where
  "span_end sp = span_start sp + length (span_value sp)"

text \<open>
  Modelled from the spec: step 3 of the missing encoder (section 4.3), on spans in ascending
  start order: \<open>on overlap (two detected spans share characters) the longer span wins and the
  shorter span is discarded\<close>. Of two overlapping spans of one length the earlier one stays.
\<close>

fun resolve_overlaps :: "detected_span list \<Rightarrow> detected_span list" where
  "resolve_overlaps (a # b # rest) =
     (if span_start b < span_end a
      then (if length (span_value a) < length (span_value b)
            then resolve_overlaps (b # rest) else resolve_overlaps (a # rest))
      else a # resolve_overlaps (b # rest))"
| "resolve_overlaps xs = xs"

text \<open>
  Modelled from the spec: the spans that the missing encoder replaces (section 4.3). \<open>A
  detected span with an empty original substring is dropped\<close>, \<open>spans are processed in ascending
  start-offset order\<close>, and overlaps are resolved.
\<close>

definition surviving_spans :: "detected_span list \<Rightarrow> detected_span list" where
  "surviving_spans spans =
     resolve_overlaps (sort_key span_start (filter (\<lambda>sp. span_value sp \<noteq> []) spans))"

text \<open>
  Modelled from the spec: the text of a fresh numeric identifier of the missing encoder, as
  Scenario A writes it (\<^verbatim>\<open>ID=1\<close>, \<^verbatim>\<open>ID=2\<close>): the decimal numeral.
\<close>

fun decimal :: "nat \<Rightarrow> jsstring" where
  "decimal n = (if n < 10 then [0x30 + of_nat n] else decimal (n div 10) @ [0x30 + of_nat (n mod 10)])"

declare decimal.simps [simp del]

text \<open>
  Modelled from the spec: the next number whose numeral no dictionary entity has as its
  identifier, for the missing encoder. Section 3 has the dictionary entities \<open>merged with newly
  detected entities before a request's id namespace is finalized\<close>, and step 2 of section 4.3
  wants the fresh identifier unique within one produced text: a number taken by the dictionary
  is passed over.
\<close>

function next_free :: "jsstring list \<Rightarrow> nat \<Rightarrow> nat" where
  "next_free used n =
     (if decimal n \<in> set used then next_free (removeAll (decimal n) used) (Suc n) else n)"
  by pat_completeness auto
termination
  by (relation "measure (\<lambda>(used, n). length used)") (auto simp: length_removeAll_less)

declare next_free.simps [simp del]

text \<open>
  Modelled from the spec: steps 1 and 2 of the missing encoder (section 4.3). A span whose value
  is the \<^verbatim>\<open>name\<close> of a dictionary entity takes that entity, identifier included; a value met
  before in this call takes the entity made then (\<open>by-value identity, not by-position\<close>); any
  other value gets \<open>a fresh monotonically increasing identifier\<close>, the next free number from
  \<open>n\<close> on. The label of a fresh entity is left to the parameter \<open>label\<close>.
\<close>

fun assign_ids ::
  "(detected_span \<Rightarrow> nat \<Rightarrow> jsstring) \<Rightarrow> SensitiveEntity list \<Rightarrow> nat \<Rightarrow> SensitiveEntity list
     \<Rightarrow> detected_span list \<Rightarrow> (detected_span \<times> SensitiveEntity) list" where
  "assign_ids label dict n known [] = []"
| "assign_ids label dict n known (sp # sps) =
     (case find (\<lambda>d. entity_name d = span_value sp) dict of
        Some d \<Rightarrow> (sp, d) # assign_ids label dict n known sps
      | None \<Rightarrow>
          (case find (\<lambda>e. entity_name e = span_value sp) known of
             Some e \<Rightarrow> (sp, e) # assign_ids label dict n known sps
           | None \<Rightarrow>
               (let k = next_free (map entity_id dict) n;
                    e = \<lparr>entity_id = decimal k, entity_name = span_value sp,
                         entity_placeholder = label sp k, entity_category = span_category sp\<rparr>
                in (sp, e) # assign_ids label dict (Suc k) (known @ [e]) sps)))"

text \<open>
  Modelled from the spec: whether a value, put between quotes \<open>q\<close>, would end its token
  before its end, for the missing encoder: section 4.1 has the token parsed lazily, so it
  ends where the quote is first followed, at once or after white space, by a closing brace.
\<close>

fun closes_inside :: "code_unit \<Rightarrow> jsstring \<Rightarrow> bool" where
  "closes_inside q [] \<longleftrightarrow> False"
| "closes_inside q (c # cs) \<longleftrightarrow>
     (c = q \<and> (case dropWhile is_white_space cs of [] \<Rightarrow> False | d # r \<Rightarrow> d = 0x7D))
     \<or> closes_inside q cs"

text \<open>
  Modelled from the spec: the quote that the missing encoder puts around a value. Section 4.1
  lets the quote be \<^verbatim>\<open>'\<close> or \<^verbatim>\<open>"\<close> and the value hold \<open>any character except the chosen
  quote character\<close>: the quote is \<^verbatim>\<open>'\<close>, as in Scenario A, unless the value holds one, and
  \<^verbatim>\<open>"\<close> then, unless the value holds that too. For a value with both the specification
  names no quote; the model takes \<^verbatim>\<open>'\<close> when the token still ends at its end, and \<^verbatim>\<open>"\<close>
  otherwise.
\<close>

definition quote_for :: "jsstring \<Rightarrow> code_unit" where
  "quote_for v =
     (if 0x27 \<notin> set v then 0x27
      else if 0x22 \<notin> set v then 0x22
      else if \<not> closes_inside 0x27 v then 0x27
      else 0x22)"

text \<open>
  Modelled from the spec: step 4 of the missing encoder (section 4.3): each surviving span is
  replaced by its detailed token \<^verbatim>\<open>{ID=<id>, TXT=<quote><value><quote>}\<close>, \<open>building the text
  left-to-right in a single pass\<close>, with offsets \<open>computed against the original text\<close>.
  \<open>pos\<close> is the offset up to which the original text has been copied.
\<close>

fun build_masked :: "jsstring \<Rightarrow> nat \<Rightarrow> (detected_span \<times> SensitiveEntity) list \<Rightarrow> jsstring" where
  "build_masked text' pos [] = drop pos text'"
| "build_masked text' pos ((sp, e) # rest) =
     take (span_start sp - pos) (drop pos text')
       @ detailed_token (entity_id e) (quote_for (span_value sp)) (span_value sp)
       @ build_masked text' (span_end sp) rest"


text \<open>
  Modelled from the spec: the entity list of step 5 of the missing encoder (section 4.3),
  \<open>deduplicated by id, first-occurrence order\<close>.
\<close>

fun dedup_by_id :: "SensitiveEntity list \<Rightarrow> SensitiveEntity list \<Rightarrow> SensitiveEntity list" where
  "dedup_by_id seen [] = []"
| "dedup_by_id seen (e # es) =
     (if entity_id e \<in> entity_id ` set seen then dedup_by_id seen es
      else e # dedup_by_id (seen @ [e]) es)"

text \<open>
  Modelled from the spec: the Placeholder Encoder of section 4.3, missing with
  \<^verbatim>\<open>api_server.py\<close>. Its inputs are the original text, the detected spans and a read view of the
  dictionary; fresh identifiers start at 1 in every call, as in Scenarios A and D.
\<close>

definition encode ::
  "(detected_span \<Rightarrow> nat \<Rightarrow> jsstring) \<Rightarrow> SensitiveEntity list \<Rightarrow> jsstring \<Rightarrow> detected_span list
     \<Rightarrow> EncodedResult" where
  "encode label dict text' spans =
     (let tokens = assign_ids label dict 1 [] (surviving_spans spans)
      in \<lparr>encoded_maskedText = build_masked text' 0 tokens,
          encoded_entitiesFound = dedup_by_id [] (map snd tokens),
          encoded_processingTime = None\<rparr>)"

text \<open>
  Modelled from the spec: the Masking Orchestrator of section 4.4 on one field, missing with
  \<^verbatim>\<open>api_server.py\<close>. The answer of the detector is an argument: a failure fails the whole
  field, ready-made masked text is passed on, raw spans go to the encoder.
\<close>

definition mask ::
  "(detected_span \<Rightarrow> nat \<Rightarrow> jsstring) \<Rightarrow> SensitiveEntity list \<Rightarrow> jsstring
     \<Rightarrow> engine_error + detector_output \<Rightarrow> engine_error + EncodedResult" where
  "mask label dict text' detected =
     (case detected of
        Inl failure \<Rightarrow> Inl failure
      | Inr (MaskedWithEntities masked entities) \<Rightarrow>
          Inr \<lparr>encoded_maskedText = masked, encoded_entitiesFound = entities,
               encoded_processingTime = None\<rparr>
      | Inr (RawSpans spans) \<Rightarrow> Inr (encode label dict text' spans))"

text \<open>
  Modelled from the spec: reading a fixed piece of text at the head of the input, for the token
  parser of the missing demasking engine.
\<close>

definition strip_prefix :: "jsstring \<Rightarrow> jsstring \<Rightarrow> jsstring option" where
  "strip_prefix p s = (if starts_with s p then Some (drop (length p) s) else None)"

text \<open>
  Modelled from the spec: the end of a detailed token, for the grammar of the missing demasking
  engine: the quote, then the closing brace. White space may stand before the brace, as the
  pattern of the repository allows. The result is the input after the token.
\<close>

definition closing :: "code_unit \<Rightarrow> jsstring \<Rightarrow> jsstring option" where
  "closing q s =
     (case s of
        [] \<Rightarrow> None
      | c # cs \<Rightarrow> if c = q then strip_prefix (ustr ''}'') (dropWhile is_white_space cs) else None)"

text \<open>
  Modelled from the spec: the value of a detailed token, for the grammar of the missing
  demasking engine. The value may hold \<open>any character\<close>, and \<open>parsing is lazy/non-greedy per
  token\<close>: the value ends at the first quote that closes the token. The result is the value
  and the input after the token.
\<close>

fun lazy_value :: "code_unit \<Rightarrow> jsstring \<Rightarrow> (jsstring \<times> jsstring) option" where
  "lazy_value q [] = None"
| "lazy_value q (c # cs) =
     (case closing q (c # cs) of
        Some rest \<Rightarrow> Some ([], rest)
      | None \<Rightarrow>
          (case lazy_value q cs of
             None \<Rightarrow> None
           | Some (v, rest) \<Rightarrow> Some (c # v, rest)))"

text \<open>
  Modelled from the spec: the detailed token of section 4.1 at the head of the input, as the
  missing demasking engine reads it: \<^verbatim>\<open>{ID=<id>, TXT=<quoted-original-value>}\<close>, where the
  identifier is not empty and has \<open>no embedded comma or }\<close> and the quote is \<^verbatim>\<open>'\<close> or \<^verbatim>\<open>"\<close>.
  White space may stand after the comma, as the pattern of the repository allows. The result
  is the identifier, the value and the input after the token.
\<close>

definition parse_detailed :: "jsstring \<Rightarrow> (jsstring \<times> jsstring \<times> jsstring) option" where
  "parse_detailed s =
     (case strip_prefix (ustr ''{ID='') s of
        None \<Rightarrow> None
      | Some s1 \<Rightarrow>
          (let ident = takeWhile (\<lambda>c. c \<noteq> 0x2C \<and> c \<noteq> 0x7D) s1;
               s2 = dropWhile (\<lambda>c. c \<noteq> 0x2C \<and> c \<noteq> 0x7D) s1
           in if ident = [] then None
              else (case strip_prefix (ustr '','') s2 of
                 None \<Rightarrow> None
               | Some s3 \<Rightarrow>
                   (case strip_prefix (ustr ''TXT='') (dropWhile is_white_space s3) of
                      None \<Rightarrow> None
                    | Some s4 \<Rightarrow>
                        (case s4 of
                           [] \<Rightarrow> None
                         | q # s5 \<Rightarrow>
                             (if q = 0x27 \<or> q = 0x22
                              then (case lazy_value q s5 of
                                      None \<Rightarrow> None
                                    | Some (v, rest) \<Rightarrow> Some (ident, v, rest))
                              else None))))))"

text \<open>
  Modelled from the spec: the simple token of section 4.1 at the head of the input, as the
  missing demasking engine reads it: a bracket around \<open>an uppercase-letter/underscore/digit
  run\<close>. The result is the run and the input after the token.
\<close>

definition parse_simple :: "jsstring \<Rightarrow> (jsstring \<times> jsstring) option" where
  "parse_simple s =
     (case s of
        b # h # r \<Rightarrow>
          (if b = 0x7B \<and> name_char h
           then (case strip_prefix (ustr ''}'') (dropWhile name_char r) of
              None \<Rightarrow> None
            | Some rest \<Rightarrow> Some (h # takeWhile name_char r, rest))
           else None)
      | _ \<Rightarrow> None)"

text \<open>
  Modelled from the spec: what \<^verbatim>\<open>parseTokens\<close> of section 4.1 finds in a text, for the missing
  demasking engine: the tokens in their order, each with what it carries (a detailed token
  its identifier and value, a simple token its bracket text and its own text), and the
  characters between them.
\<close>

datatype piece = Character code_unit | Detailed jsstring jsstring | Simple jsstring jsstring

text \<open>
  Modelled from the spec: \<^verbatim>\<open>parseTokens\<close> of section 4.1, missing with \<^verbatim>\<open>api_server.py\<close>: one
  pass from left to right, \<open>detailed tokens are recognized first\<close>, and the text of a token
  is not looked into again. A token is never empty, so the tests on the length of the rest
  always hold; they are what makes the recursion end.
\<close>

function parseTokens :: "jsstring \<Rightarrow> piece list" where
  "parseTokens [] = []"
| "parseTokens (c # cs) =
     (case parse_detailed (c # cs) of
        Some (ident, v, rest) \<Rightarrow>
          (if length rest < length (c # cs) then Detailed ident v # parseTokens rest
           else Character c # parseTokens cs)
      | None \<Rightarrow>
          (case parse_simple (c # cs) of
             Some (label, rest) \<Rightarrow>
               (if length rest < length (c # cs)
                then Simple label (take (length (c # cs) - length rest) (c # cs)) # parseTokens rest
                else Character c # parseTokens cs)
           | None \<Rightarrow> Character c # parseTokens cs))"
  by pat_completeness auto
termination
  by (relation "measure length") auto

declare parseTokens.simps(2) [simp del]

text \<open>
  Modelled from the spec: the index \<open>id \<rightarrow> SensitiveEntity\<close> of the mapping of section 3,
  that the missing demasking engine is given. The mapping built from an entity list is the
  list itself; the first entity with the key is found.
\<close>

definition lookup_id :: "SensitiveEntity list \<Rightarrow> jsstring \<Rightarrow> SensitiveEntity option" where
  "lookup_id mapping k = find (\<lambda>e. entity_id e = k) mapping"

text \<open>
  Modelled from the spec: the index \<open>name \<rightarrow> SensitiveEntity\<close> of the mapping of section 3,
  for the missing demasking engine.
\<close>

definition lookup_name :: "SensitiveEntity list \<Rightarrow> jsstring \<Rightarrow> SensitiveEntity option" where
  "lookup_name mapping k = find (\<lambda>e. entity_name e = k) mapping"

text \<open>
  Modelled from the spec: what the missing Demasking Engine of section 4.5 puts for one piece.
  A detailed token becomes the \<^verbatim>\<open>name\<close> of the entity with its identifier, or \<open>the token's
  own embedded TXT value\<close> when the mapping has none. A simple token becomes the \<^verbatim>\<open>name\<close> of
  the entity that the mapping has for its bracket text, and stays as it is when there is
  none.
\<close>

fun demask_piece :: "SensitiveEntity list \<Rightarrow> piece \<Rightarrow> jsstring" where
  "demask_piece mapping (Character c) = [c]"
| "demask_piece mapping (Detailed ident v) =
     (case lookup_id mapping ident of Some e \<Rightarrow> entity_name e | None \<Rightarrow> v)"
| "demask_piece mapping (Simple label raw) =
     (case lookup_id mapping label of
        Some e \<Rightarrow> entity_name e
      | None \<Rightarrow> (case lookup_name mapping label of Some e \<Rightarrow> entity_name e | None \<Rightarrow> raw))"

text \<open>
  Modelled from the spec: the Demasking Engine of section 4.5, missing with \<^verbatim>\<open>api_server.py\<close>:
  the tokens are parsed from left to right and substituted in \<open>a single left-to-right
  substitution pass with no re-scanning of already-substituted text\<close>.
\<close>

definition demask :: "SensitiveEntity list \<Rightarrow> jsstring \<Rightarrow> jsstring" where
  "demask mapping s = concat (map (demask_piece mapping) (parseTokens s))"

text \<open>
  Modelled from the spec: the replacement of the invariant of \<^verbatim>\<open>MaskingResult\<close> in section 3,
  \<open>replacing every token in maskedText with its corresponding entity's name\<close>, on the result
  of the missing encoder. The entity of a token is looked up as in demasking; there is no
  result when a token has no entity, the value that the token embeds is not used.
\<close>

fun named_piece :: "SensitiveEntity list \<Rightarrow> piece \<Rightarrow> jsstring option" where
  "named_piece mapping (Character c) = Some [c]"
| "named_piece mapping (Detailed ident v) = map_option entity_name (lookup_id mapping ident)"
| "named_piece mapping (Simple label raw) =
     (case lookup_id mapping label of
        Some e \<Rightarrow> Some (entity_name e)
      | None \<Rightarrow> map_option entity_name (lookup_name mapping label))"

text \<open>
  Modelled from the spec: the replacement of the invariant of section 3 on all the pieces of
  a text of the missing encoder, from left to right.
\<close>

fun named_pieces :: "SensitiveEntity list \<Rightarrow> piece list \<Rightarrow> jsstring option" where
  "named_pieces mapping [] = Some []"
| "named_pieces mapping (p # ps) =
     (case named_piece mapping p of
        None \<Rightarrow> None
      | Some s \<Rightarrow> map_option (append s) (named_pieces mapping ps))"




subsection \<open>Inputs on which the round trip is proved\<close>







section \<open>Servers and states of the examples\<close>

text \<open>A server that answers every request with the body it was sent.\<close>

definition echo_server :: server where
  "echo_server req = Fulfilled \<lparr>data = body req, status = 200\<rparr>"

text \<open>
  A server that answers every \<^verbatim>\<open>GET\<close> with \<^verbatim>\<open>{success: false, error: "down"}\<close> and
  every other request with status 500.
\<close>

definition failing_server :: server where
  "failing_server req =
     (if http_method req = GET
      then Fulfilled \<lparr>data = JObj [(ustr ''success'', JBool False),
                                   (ustr ''error'', JStr (ustr ''down''))], status = 200\<rparr>
      else Rejected \<lparr>err_message = ustr ''Request failed with status code 500'',
                      err_code = Some (ustr ''ERR_BAD_RESPONSE''),
                      err_response = Some \<lparr>data = JObj [(ustr ''message'', JStr (ustr ''boom''))],
                                            status = 500\<rparr>\<rparr>)"

text \<open>A server whose masking response has a masked text and nothing else.\<close>

definition bare_mask_server :: server where
  "bare_mask_server req =
     Fulfilled \<lparr>data = JObj [(ustr ''masked_text'', JStr (ustr ''Hello {ID=1, TXT='Ivan'}''))],
                status = 200\<rparr>"

text \<open>
  A server that masks the query \<^verbatim>\<open>Hello Ivan\<close> and times out on every other request.
\<close>

definition query_only_server :: server where
  "query_only_server req =
     (if body req = TextProcessingInput_json
           \<lparr>input_text = ustr ''Hello Ivan'', input_systemPrompt = Some (ustr ''mask'')\<rparr>
      then Fulfilled \<lparr>data = JObj [(ustr ''masked_text'', JStr (ustr ''Hello {ID=1, TXT='Ivan'}'')),
                                   (ustr ''entities_found'', JArr [])], status = 200\<rparr>
      else Rejected \<lparr>err_message = ustr ''timeout of 120000ms exceeded'',
                      err_code = Some (ustr ''ECONNABORTED''), err_response = None\<rparr>)"

definition two_fields :: AppState where
  "two_fields =
     \<lparr>queryText = ustr ''Hello Ivan'', contextText = ustr ''Bye Ivan'',
      maskedQueryText = JStr [], maskedContextText = JStr [], resultText = JStr [],
      demaskedResultText = JStr [], maskingPrompt = ustr ''mask'', systemPrompt = [],
      viewMode = \<lparr>view_query = Original, view_context = Original, view_detail = False,
                  view_result = ResultMasked\<rparr>,
      isProcessing = False, isDemaskingResult = False, error = None\<rparr>"

text \<open>
  A server whose masking response gives \<^verbatim>\<open>entities_found\<close> as an object, \<^verbatim>\<open>{}\<close>.
\<close>

definition object_entities_server :: server where
  "object_entities_server req =
     Fulfilled \<lparr>data = JObj [(ustr ''masked_text'', JStr (ustr ''Hello'')),
                             (ustr ''entities_found'', JObj [])],
                status = 200\<rparr>"

text \<open>
  A server whose dictionary holds one entity, and a cache that still holds the empty list,
  fetched at the time 1 for a mounted component.
\<close>

definition dictionary_server :: server where
  "dictionary_server req =
     (if http_method req = GET
      then Fulfilled \<lparr>data = JArr [JObj [(ustr ''id'', JStr (ustr ''1'')),
                                         (ustr ''name'', JStr (ustr ''Ivan'')),
                                         (ustr ''placeholder'', JStr (ustr ''PERSON''))]],
                      status = 200\<rparr>
      else Fulfilled \<lparr>data = JObj [(ustr ''id'', JStr (ustr ''1'')),
                                   (ustr ''name'', JStr (ustr ''Ivan'')),
                                   (ustr ''placeholder'', JStr (ustr ''PERSON''))],
                      status = 200\<rparr>)"

definition empty_list_cached :: query_cache where
  "empty_list_cached =
     Map.empty(queryKeys_sensitiveEntities \<mapsto>
       \<lparr>query_data = JArr [], dataUpdatedAt = 1, isInvalidated = False, isFetching = False,
        observers = 1, queryFn = getSensitiveEntities\<rparr>)"

text \<open>
  The masked text of Scenario A: the name \<^verbatim>\<open>U+0418 U+0432 U+0430 U+043D\<close>, a space,
  \<^verbatim>\<open>U+041F U+0435 U+0442 U+0440 U+043E U+0432\<close> as the token 1, and the address as the token 2.
\<close>

definition ivan_petrov :: jsstring where
  "ivan_petrov = [0x418, 0x432, 0x430, 0x43D, 0x20, 0x41F, 0x435, 0x442, 0x440, 0x43E, 0x432]"


text \<open>
  Scenario A of the specification: the name followed by \<^verbatim>\<open>, email ivan@example.com\<close>, with
  the detector reporting the name and the address; fresh entities are labelled
  \<^verbatim>\<open>ENTITY_n\<close>.
\<close>

definition scenario_text :: jsstring where
  "scenario_text = ivan_petrov @ ustr '', email ivan@example.com''"

definition scenario_spans :: "detected_span list" where
  "scenario_spans =
     [\<lparr>span_start = 0, span_value = ivan_petrov, span_category = Some (ustr ''person'')\<rparr>,
      \<lparr>span_start = 19, span_value = ustr ''ivan@example.com'',
       span_category = Some (ustr ''email'')\<rparr>]"

definition numbered_label :: "detected_span \<Rightarrow> nat \<Rightarrow> jsstring" where
  "numbered_label sp n = ustr ''ENTITY_'' @ decimal n"

text \<open>A dictionary that knows the name of Scenario A under the identifier \<^verbatim>\<open>2\<close>.\<close>

definition person_dictionary :: "SensitiveEntity list" where
  "person_dictionary =
     [\<lparr>entity_id = ustr ''2'', entity_name = ivan_petrov,
       entity_placeholder = ustr ''PERSON'', entity_category = Some (ustr ''person'')\<rparr>]"

text \<open>
  A text of four characters, \<^verbatim>\<open>'\<close>, \<^verbatim>\<open>}\<close>, \<^verbatim>\<open>"\<close>, \<^verbatim>\<open>}\<close>; and the answer of a detector
  that reports one value, at the start of the text.
\<close>

definition quotes_and_braces :: jsstring where
  "quotes_and_braces = [0x27, 0x7D, 0x22, 0x7D]"


section \<open>Properties of the matcher\<close>

lemma starts_with_Nil [simp]: "starts_with s []"
  by (simp add: starts_with_def)

lemma starts_with_Nil_Cons [simp]: "\<not> starts_with [] (y # ys)"
  by (simp add: starts_with_def)

lemma starts_with_Cons [simp]:
  "starts_with (x # xs) (y # ys) \<longleftrightarrow> x = y \<and> starts_with xs ys"
  by (simp add: starts_with_def)

lemma starts_with_append [simp]: "starts_with (p @ s) p"
  by (simp add: starts_with_def)

lemma first_some_all_None:
  "(\<And>x. x \<in> set xs \<Longrightarrow> f x = None) \<Longrightarrow> first_some f xs = None"
  by (induction xs) auto

lemma first_some_append:
  "first_some f (xs @ ys) =
     (case first_some f xs of Some r \<Rightarrow> Some r | None \<Rightarrow> first_some f ys)"
  by (induction xs) (auto split: option.splits)

lemma first_some_cong:
  "(\<And>x. x \<in> set xs \<Longrightarrow> f x = g x) \<Longrightarrow> first_some f xs = first_some g xs"
  by (induction xs) (auto split: option.splits)

text \<open>A greedy quantifier settles on the longest run when every shorter one fails.\<close>

lemma first_some_greedy:
  assumes "\<And>j. lo \<le> j \<Longrightarrow> j < n \<Longrightarrow> f j = None" and "lo \<le> n"
  shows "first_some f (rev [lo..<Suc n]) = f n"
proof -
  have "first_some f (rev [lo..<n]) = None"
    using assms(1) by (intro first_some_all_None) auto
  with assms(2) show ?thesis by (simp split: option.splits)
qed

lemma first_some_greedy_hit:
  "lo \<le> n \<Longrightarrow> f n = Some r \<Longrightarrow> first_some f (rev [lo..<Suc n]) = Some r"
  by simp

text \<open>A lazy quantifier stops at the first length at which the continuation succeeds.\<close>

lemma first_some_lazy:
  assumes "\<And>j. j < i \<Longrightarrow> f j = None" and "i \<le> n"
  shows "first_some f [0..<Suc n] =
    (case f i of Some r \<Rightarrow> Some r | None \<Rightarrow> first_some f [Suc i..<Suc n])"
proof -
  have "[0..<Suc n] = [0..<i] @ [i..<Suc n]"
    using upt_add_eq_append [of 0 i "Suc n - i"] assms(2) by simp
  moreover have "[i..<Suc n] = i # [Suc i..<Suc n]"
    by (rule upt_conv_Cons) (use assms(2) in simp)
  ultimately have split: "[0..<Suc n] = [0..<i] @ i # [Suc i..<Suc n]"
    by simp
  have "first_some f [0..<i] = None"
    using assms(1) by (intro first_some_all_None) auto
  then show ?thesis
    by (subst split) (simp add: first_some_append del: upt_Suc)
qed

lemma counts_le: "j \<in> set (counts q n) \<Longrightarrow> j \<le> n"
  by (cases q) auto

lemma run_Chars:
  "run (Chars l # ns) k s c =
     (if starts_with s l then run ns k (drop (length l) s) c else None)"
  by simp

lemma run_Class:
  "run (Class cl # ns) k s c =
     (case s of [] \<Rightarrow> None | x # xs \<Rightarrow> if in_class cl x then run ns k xs c else None)"
  by simp

lemma run_Repeat:
  "run (Repeat cl q # ns) k s c =
     first_some (\<lambda>j. run ns k (drop j s) c) (counts q (length (takeWhile (in_class cl) s)))"
  by simp

lemma run_Group_Repeat:
  "run (Group g (Repeat cl q) # ns) k s c =
     first_some (\<lambda>j. run ns k (drop j s) (c(g := Some (take j s))))
       (counts q (length (takeWhile (in_class cl) s)))"
proof -
  have "take (length s - length (drop j s)) s = take j s"
    if "j \<in> set (counts q (length (takeWhile (in_class cl) s)))" for j
  proof -
    have "j \<le> length s"
      using counts_le [OF that] length_takeWhile_le [of "in_class cl" s] by linarith
    then show ?thesis by simp
  qed
  then show ?thesis
    by (simp cong: first_some_cong)
qed

lemma run_Group_Class:
  "run (Group g (Class cl) # ns) k s c =
     (case s of [] \<Rightarrow> None
      | x # xs \<Rightarrow> if in_class cl x then run ns k xs (c(g := Some [x])) else None)"
  by (simp split: list.splits)

lemma run_Backref:
  "run (Backref g # ns) k s c =
     (case c g of None \<Rightarrow> run ns k s c
      | Some l \<Rightarrow> if starts_with s l then run ns k (drop (length l) s) c else None)"
  by simp

lemma takeWhile_stop:
  "(\<And>x. x \<in> set xs \<Longrightarrow> P x) \<Longrightarrow> \<not> P y \<Longrightarrow> takeWhile P (xs @ y # ys) = xs"
  by (simp add: takeWhile_tail)

lemma drop_takeWhile_hd:
  assumes "j < length (takeWhile P r)"
  shows "\<exists>x xs. drop j r = x # xs \<and> P x"
proof -
  have jr: "j < length r"
    using assms length_takeWhile_le [of P r] by linarith
  have "P (r ! j)"
    using assms by (metis nth_mem set_takeWhileD takeWhile_nth)
  then show ?thesis
    using jr by (metis Cons_nth_drop_Suc)
qed

lemma run_greedy_stop:
  assumes "\<And>x. x \<in> set w \<Longrightarrow> in_class cl x" and "\<not> in_class cl y"
    and "run ns k (y # ys) c = Some r"
  shows "run (Repeat cl Star # ns) k (w @ y # ys) c = Some r"
proof -
  have "takeWhile (in_class cl) (w @ y # ys) = w"
    using assms(1,2) by (rule takeWhile_stop)
  then show ?thesis
    unfolding run_Repeat counts.simps using assms(3)
    by (intro first_some_greedy_hit) simp_all
qed

subsection \<open>The simple pattern\<close>

lemma in_class_name_start: "in_class (OneOf [(0x41, 0x5A), (0x5F, 0x5F)]) = name_start"
  by (auto simp: fun_eq_iff name_start_def is_upper_def)

lemma in_class_name_char:
  "in_class (OneOf [(0x41, 0x5A), (0x30, 0x39), (0x5F, 0x5F)]) = name_char"
  by (auto simp: fun_eq_iff name_char_def is_upper_def is_digit_def)

lemma name_char_not_rbrace: "name_char c \<Longrightarrow> c \<noteq> 0x7D"
  by (auto simp: name_char_def is_upper_def is_digit_def)

lemma match_here_simple:
  "match_here simplePattern s =
     (case s of
        b # h # r \<Rightarrow>
          (if b = 0x7B \<and> name_start h \<and> starts_with (dropWhile name_char r) [0x7D]
           then Some (tl (dropWhile name_char r), \<lambda>_. None) else None)
      | _ \<Rightarrow> None)"
proof (cases s)
  case Nil
  then show ?thesis
    by (simp only: match_here_def simplePattern_def run_Chars ustr_def) simp
next
  case s: (Cons b s')
  show ?thesis
  proof (cases s')
    case Nil
    then show ?thesis using s
      by (simp only: match_here_def simplePattern_def run_Chars run_Class ustr_def) simp
  next
    case (Cons h r)
    let ?n = "length (takeWhile name_char r)"
    let ?f = "\<lambda>j. run [Chars (ustr ''}'')] (\<lambda>rest c. Some (rest, c)) (drop j r) (\<lambda>_. None)"
    have f: "?f j =
        (if starts_with (drop j r) [0x7D] then Some (tl (drop j r), \<lambda>_. None) else None)" for j
      by (simp add: ustr_def drop_Suc tl_drop)
    have fail: "?f j = None" if "j < ?n" for j
    proof -
      from drop_takeWhile_hd [OF that] obtain x xs where "drop j r = x # xs" "name_char x"
        by blast
      then show ?thesis unfolding f using name_char_not_rbrace by auto
    qed
    have "first_some ?f (rev [0..<Suc ?n]) = ?f ?n"
      by (rule first_some_greedy) (use fail in auto)
    moreover have "drop ?n r = dropWhile name_char r"
      by (simp add: dropWhile_eq_drop)
    ultimately have star: "first_some ?f (counts Star ?n) =
        (if starts_with (dropWhile name_char r) [0x7D]
         then Some (tl (dropWhile name_char r), \<lambda>_. None) else None)"
      unfolding f by (simp del: upt_Suc)
    have "match_here simplePattern (b # h # r) =
        (if b = 0x7B then if name_start h then first_some ?f (counts Star ?n) else None
         else None)"
      unfolding match_here_def simplePattern_def run_Chars run_Class run_Repeat
        in_class_name_start in_class_name_char
      by (simp add: ustr_def)
    then show ?thesis
      unfolding star using s Cons by simp
  qed
qed

lemma dropWhile_is_rbrace:
  "dropWhile name_char r = [0x7D] \<longleftrightarrow> (\<exists>t. r = t @ [0x7D] \<and> list_all name_char t)"
proof
  assume "dropWhile name_char r = [0x7D]"
  then have "r = takeWhile name_char r @ [0x7D]"
    by (metis takeWhile_dropWhile_id)
  moreover have "list_all name_char (takeWhile name_char r)"
    by (simp add: list_all_iff) (meson set_takeWhileD)
  ultimately show "\<exists>t. r = t @ [0x7D] \<and> list_all name_char t"
    by blast
next
  assume "\<exists>t. r = t @ [0x7D] \<and> list_all name_char t"
  then obtain t where "r = t @ [0x7D]" "list_all name_char t"
    by blast
  then show "dropWhile name_char r = [0x7D]"
    using name_char_not_rbrace by (auto simp: list_all_iff dropWhile_append)
qed

lemma recognized_simple_iff:
  "recognized_simple s \<longleftrightarrow>
     (\<exists>h t. s = 0x7B # h # t @ [0x7D] \<and> name_start h \<and> list_all name_char t)"
proof -
  have one: "starts_with d [0x7D] \<and> tl d = [] \<longleftrightarrow> d = [0x7D]" for d :: jsstring
    by (cases d) auto
  show ?thesis
  proof (cases s)
    case Nil
    then show ?thesis by (simp add: recognized_simple_def match_here_simple)
  next
    case s: (Cons b s')
    show ?thesis
    proof (cases s')
      case Nil
      then show ?thesis using s by (simp add: recognized_simple_def match_here_simple)
    next
      case (Cons h r)
      have "recognized_simple s \<longleftrightarrow>
          b = 0x7B \<and> name_start h \<and> starts_with (dropWhile name_char r) [0x7D]
            \<and> tl (dropWhile name_char r) = []"
        using s Cons by (auto simp: recognized_simple_def match_here_simple)
      also have "\<dots> \<longleftrightarrow> b = 0x7B \<and> name_start h \<and> dropWhile name_char r = [0x7D]"
        using one by blast
      also have "\<dots> \<longleftrightarrow> b = 0x7B \<and> name_start h \<and> (\<exists>t. r = t @ [0x7D] \<and> list_all name_char t)"
        by (simp only: dropWhile_is_rbrace)
      finally show ?thesis
        using s Cons by auto
    qed
  qed
qed

subsection \<open>The detailed pattern\<close>

lemma white_space_not_T: "\<not> is_white_space 0x54"
  by (simp add: is_white_space_def is_line_terminator_def)

lemma white_space_not_rbrace: "\<not> is_white_space 0x7D"
  by (simp add: is_white_space_def is_line_terminator_def)

lemma match_here_detailed:
  assumes ident: "ident \<noteq> []" "\<And>x. x \<in> set ident \<Longrightarrow> x \<noteq> 0x2C \<and> x \<noteq> 0x7D"
    and q: "q = 0x27 \<or> q = 0x22"
    and v: "\<And>x. x \<in> set v \<Longrightarrow> x \<noteq> q \<and> \<not> is_line_terminator x"
    and w1: "\<And>x. x \<in> set w1 \<Longrightarrow> is_white_space x"
    and w2: "\<And>x. x \<in> set w2 \<Longrightarrow> is_white_space x"
  shows "match_here detailedPattern
           (ustr ''{ID='' @ ident @ ustr '','' @ w1 @ ustr ''TXT='' @ q # v @ q # w2 @ ustr ''}'' @ rest)
         = Some (rest, (\<lambda>_. None)(1 := Some ident, 2 := Some [q], 3 := Some v))"
proof -
  let ?k = "\<lambda>rest (c :: captures). Some (rest, c)"
  let ?c1 = "(\<lambda>_. None)(1 := Some ident) :: captures"
  let ?c2 = "?c1(2 := Some [q])"
  let ?c3 = "?c2(3 := Some v)"
  let ?tail = "[Backref 2, Repeat WhiteSpace Star, Chars (ustr ''}'')]"
  let ?s6 = "v @ q # w2 @ 0x7D # rest"
  have e1: "run [Repeat WhiteSpace Star, Chars (ustr ''}'')] ?k (w2 @ 0x7D # rest) ?c3 = Some (rest, ?c3)"
    by (rule run_greedy_stop) (use w2 white_space_not_rbrace in \<open>simp_all add: ustr_def\<close>)
  have e2: "run ?tail ?k (drop (length v) ?s6) (?c2(3 := Some (take (length v) ?s6))) = Some (rest, ?c3)"
    using e1 by (simp only: run_Backref) simp
  have fail: "run ?tail ?k (drop j ?s6) (?c2(3 := Some (take j ?s6))) = None" if "j < length v" for j
  proof -
    have "drop j ?s6 = v ! j # drop (Suc j) ?s6"
      using that by (simp add: Cons_nth_drop_Suc nth_append)
    moreover have "v ! j \<noteq> q"
      using v that by simp
    ultimately show ?thesis
      by (simp only: run_Backref) simp
  qed
  have "length v \<le> length (takeWhile (in_class AnyChar) ?s6)"
  proof -
    have "takeWhile (in_class AnyChar) ?s6 = v @ takeWhile (in_class AnyChar) (q # w2 @ 0x7D # rest)"
      using v by (simp add: takeWhile_append2)
    then show ?thesis by simp
  qed
  then have e3: "run (Group 3 (Repeat AnyChar LazyStar) # ?tail) ?k ?s6 ?c2 = Some (rest, ?c3)"
    unfolding run_Group_Repeat counts.simps
    by (subst first_some_lazy [where i = "length v"]) (use fail e2 in simp_all)
  have "in_class (OneOf [(0x27, 0x27), (0x22, 0x22)]) q"
    using q by auto
  then have e4: "run (Group 2 (Class (OneOf [(0x27, 0x27), (0x22, 0x22)]))
        # Group 3 (Repeat AnyChar LazyStar) # ?tail) ?k (q # ?s6) ?c1 = Some (rest, ?c3)"
    using e3 by (simp only: run_Group_Class list.case if_True)
  let ?p5 = "Chars (ustr ''TXT='') # Group 2 (Class (OneOf [(0x27, 0x27), (0x22, 0x22)]))
        # Group 3 (Repeat AnyChar LazyStar) # ?tail"
  have e5: "run ?p5 ?k (0x54 # ustr ''XT='' @ q # ?s6) ?c1 = Some (rest, ?c3)"
    using e4 by (simp only: run_Chars) (simp add: ustr_def)
  have e6: "run (Repeat WhiteSpace Star # ?p5) ?k (w1 @ 0x54 # ustr ''XT='' @ q # ?s6) ?c1 = Some (rest, ?c3)"
    by (rule run_greedy_stop) (use w1 white_space_not_T e5 in simp_all)
  have e7: "run (Chars (ustr '','') # Repeat WhiteSpace Star # ?p5) ?k
      (0x2C # w1 @ 0x54 # ustr ''XT='' @ q # ?s6) ?c1 = Some (rest, ?c3)"
    using e6 by (simp only: run_Chars) (simp add: ustr_def)
  let ?s1 = "ident @ 0x2C # w1 @ 0x54 # ustr ''XT='' @ q # ?s6"
  have tw: "takeWhile (in_class (NoneOf [(0x2C, 0x2C), (0x7D, 0x7D)])) ?s1 = ident"
    by (rule takeWhile_stop) (use ident(2) in auto)
  have e8: "run (Group 1 (Repeat (NoneOf [(0x2C, 0x2C), (0x7D, 0x7D)]) Plus) # Chars (ustr '','')
       # Repeat WhiteSpace Star # ?p5) ?k ?s1 (\<lambda>_. None) = Some (rest, ?c3)"
    unfolding run_Group_Repeat tw counts.simps
    by (rule first_some_greedy_hit) (use ident(1) e7 in \<open>simp_all add: Suc_le_eq\<close>)
  have "match_here detailedPattern (ustr ''{ID='' @ ?s1) = Some (rest, ?c3)"
    unfolding match_here_def detailedPattern_def using e8
    by (simp only: run_Chars starts_with_append append_eq_conv_conj if_True) simp
  then show ?thesis
    by (simp add: ustr_def)
qed

lemma match_here_token:
  assumes "ident \<noteq> []" "\<And>x. x \<in> set ident \<Longrightarrow> x \<noteq> 0x2C \<and> x \<noteq> 0x7D"
    and "q = 0x27 \<or> q = 0x22"
    and "\<And>x. x \<in> set v \<Longrightarrow> x \<noteq> q \<and> \<not> is_line_terminator x"
  shows "match_here detailedPattern (detailed_token ident q v @ rest)
         = Some (rest, (\<lambda>_. None)(1 := Some ident, 2 := Some [q], 3 := Some v))"
proof -
  have ws: "\<And>x. x \<in> set [0x20] \<Longrightarrow> is_white_space x"
    by (simp add: is_white_space_def)
  have "detailed_token ident q v @ rest =
      ustr ''{ID='' @ ident @ ustr '','' @ [0x20] @ ustr ''TXT='' @ q # v @ q # [] @ ustr ''}'' @ rest"
    by (simp add: detailed_token_def ustr_def)
  then show ?thesis
    using match_here_detailed [where ident = ident and q = q and v = v and ?w1.0 = "[0x20]"
        and ?w2.0 = "[]" and rest = rest] assms ws by simp
qed

lemma replace_g_Nil:
  "match_here p [] = None \<Longrightarrow> replace_g p f [] = []"
  by (subst replace_g.simps) simp

lemma replace_g_skip:
  "match_here p (x # xs) = None \<Longrightarrow> replace_g p f (x # xs) = x # replace_g p f xs"
  by (subst replace_g.simps) simp

lemma replace_g_match:
  assumes "match_here p (tok @ rest) = Some (rest, c)" and "tok \<noteq> []"
  shows "replace_g p f (tok @ rest) = f tok c @ replace_g p f rest"
  using assms by (subst replace_g.simps) simp

lemma match_here_lbrace:
  "p = Chars (0x7B # l) # ns \<Longrightarrow> x \<noteq> 0x7B \<Longrightarrow> match_here p (x # xs) = None"
  by (simp add: match_here_def)

lemma match_here_lbrace_Nil:
  "p = Chars (0x7B # l) # ns \<Longrightarrow> match_here p [] = None"
  by (simp add: match_here_def)

lemma replace_g_copy:
  assumes p: "p = Chars (0x7B # l) # ns" and "0x7B \<notin> set xs" and "replace_g p f ys = ys'"
  shows "replace_g p f (xs @ ys) = xs @ ys'"
  using assms(2)
proof (induction xs)
  case Nil
  then show ?case using assms(3) by simp
next
  case (Cons x xs)
  then have "match_here p ((x # xs) @ ys) = None"
    using match_here_lbrace [OF p] by simp
  then show ?case
    using Cons by (simp add: replace_g_skip)
qed

lemma replace_g_plain:
  assumes p: "p = Chars (0x7B # l) # ns" and "0x7B \<notin> set xs"
  shows "replace_g p f xs = xs"
  using replace_g_copy [OF p assms(2), of f "[]" "[]"] replace_g_Nil [OF match_here_lbrace_Nil [OF p]]
  by simp



lemma detailed_token_not_Nil: "detailed_token ident q v \<noteq> []"
  by (simp add: detailed_token_def ustr_def)

lemma extract_token:
  assumes "ident \<noteq> []" "\<And>x. x \<in> set ident \<Longrightarrow> x \<noteq> 0x2C \<and> x \<noteq> 0x7D"
    and "q = 0x27 \<or> q = 0x22"
    and "\<And>x. x \<in> set v \<Longrightarrow> x \<noteq> q \<and> \<not> is_line_terminator x"
  shows "extractPlaceholdersFromMasked (detailed_token ident q v @ rest)
    = v @ extractPlaceholdersFromMasked rest"
proof -
  have m: "match_here detailedPattern (detailed_token ident q v @ rest)
      = Some (rest, (\<lambda>_. None)(1 := Some ident, 2 := Some [q], 3 := Some v))"
    by (rule match_here_token) (use assms in auto)
  show ?thesis
    unfolding extractPlaceholdersFromMasked_def
    by (subst replace_g_match [OF m detailed_token_not_Nil]) (simp add: template_def)
qed

section \<open>The simple-token grammar\<close>

text \<open>
  C7, as the specification states it: a bracketed run is a simple token exactly when it
  matches \<^verbatim>\<open>'{' [A-Z][A-Z0-9_]* '}'\<close>. The pattern of the code also lets an underscore
  stand first: \<^verbatim>\<open>{_}\<close> is recognized as a simple token and is outside the wire grammar.
\<close>

theorem simple_token_underscore_first:
  "recognized_simple (ustr ''{_}'') \<and> \<not> wire_simple (ustr ''{_}'')"
  by (simp add: recognized_simple_def match_here_simple ustr_def name_start_def name_char_def
      is_upper_def is_digit_def)

text \<open>
  C7, amended: a string is recognized as one simple token exactly when it is an opening
  brace, then an uppercase letter or an underscore, then any number of uppercase letters,
  digits and underscores, then a closing brace.
\<close>

theorem simple_token_grammar:
  "recognized_simple s \<longleftrightarrow>
     (\<exists>h t. s = [0x7B] @ h # t @ [0x7D] \<and> (is_upper h \<or> h = 0x5F)
        \<and> list_all (\<lambda>c. is_upper c \<or> is_digit c \<or> c = 0x5F) t)"
  by (simp add: recognized_simple_iff name_start_def name_char_def [abs_def])

theorem simple_token_grammar_witness:
  "recognized_simple (ustr ''{PERSON_NAME_1}'')"
proof -
  have "ustr ''{PERSON_NAME_1}'' = [0x7B] @ 0x50 # ustr ''ERSON_NAME_1'' @ [0x7D]"
    by (simp add: ustr_def)
  moreover have "list_all (\<lambda>c. is_upper c \<or> is_digit c \<or> c = 0x5F) (ustr ''ERSON_NAME_1'')"
    by (simp add: ustr_def is_upper_def is_digit_def)
  moreover have "is_upper 0x50"
    by (simp add: is_upper_def)
  ultimately show ?thesis
    using simple_token_grammar [of "ustr ''{PERSON_NAME_1}''"] by blast
qed

section \<open>The detailed-token grammar\<close>

text \<open>
  C6, as the specification states it: every string \<^verbatim>\<open>{ID=<id>, TXT=<quote><value><quote>}\<close>
  whose id has no comma and no closing brace and whose value lacks the chosen quote is parsed
  as one detailed token, newlines in the value included. The pattern of the code reads the
  value with \<^verbatim>\<open>.\<close>, which matches no line terminator, and the id with \<^verbatim>\<open>+\<close>, which
  wants one character at least: a token whose value holds a line feed is not matched, and
  \<^verbatim>\<open>extractPlaceholdersFromMasked\<close> leaves it as it is; nor is a token with an empty id.
\<close>

theorem detailed_token_newline_unmatched:
  "0x27 \<notin> set (ustr ''a'' @ [0x0A] @ ustr ''b'')
   \<and> match_here detailedPattern
         (detailed_token (ustr ''1'') 0x27 (ustr ''a'' @ [0x0A] @ ustr ''b'')) = None
   \<and> extractPlaceholdersFromMasked
         (detailed_token (ustr ''1'') 0x27 (ustr ''a'' @ [0x0A] @ ustr ''b''))
       = detailed_token (ustr ''1'') 0x27 (ustr ''a'' @ [0x0A] @ ustr ''b'')
   \<and> match_here detailedPattern (detailed_token [] 0x27 (ustr ''x'')) = None"
  by code_simp

text \<open>
  C6, amended: when the id is not empty and has no comma and no closing brace, the quote is
  \<^verbatim>\<open>'\<close> or \<^verbatim>\<open>"\<close>, and the value holds neither that quote nor a line terminator
  (the other quote is allowed), the pattern matches the token at its first code unit, ends
  the match at its closing brace, and captures exactly the id, the quote and the value;
  \<^verbatim>\<open>extractPlaceholdersFromMasked\<close> replaces the token by its value and goes on after it.
\<close>

theorem detailed_token_recognized:
  assumes "ident \<noteq> []" and "\<forall>x\<in>set ident. x \<noteq> 0x2C \<and> x \<noteq> 0x7D"
    and "q = 0x27 \<or> q = 0x22"
    and "\<forall>x\<in>set v. x \<noteq> q \<and> \<not> is_line_terminator x"
  shows "(\<exists>c. match_here detailedPattern (detailed_token ident q v @ rest) = Some (rest, c)
            \<and> c 1 = Some ident \<and> c 2 = Some [q] \<and> c 3 = Some v)
     \<and> extractPlaceholdersFromMasked (detailed_token ident q v @ rest)
         = v @ extractPlaceholdersFromMasked rest"
proof -
  have "match_here detailedPattern (detailed_token ident q v @ rest)
      = Some (rest, (\<lambda>_. None)(1 := Some ident, 2 := Some [q], 3 := Some v))"
    by (rule match_here_token) (use assms in auto)
  moreover have "extractPlaceholdersFromMasked (detailed_token ident q v @ rest)
      = v @ extractPlaceholdersFromMasked rest"
    by (rule extract_token) (use assms in auto)
  ultimately show ?thesis by simp
qed

theorem detailed_token_recognized_witness:
  "(\<exists>c. match_here detailedPattern (detailed_token (ustr ''7'') 0x22 (ustr ''O'Brien'') @ ustr '' x'')
          = Some (ustr '' x'', c)
        \<and> c 1 = Some (ustr ''7'') \<and> c 2 = Some [0x22] \<and> c 3 = Some (ustr ''O'Brien''))
   \<and> extractPlaceholdersFromMasked (detailed_token (ustr ''7'') 0x22 (ustr ''O'Brien'') @ ustr '' x'')
       = ustr ''O'Brien'' @ extractPlaceholdersFromMasked (ustr '' x'')"
  by (rule detailed_token_recognized)
    (simp_all add: ustr_def is_line_terminator_def)

section \<open>Rendering detailed tokens\<close>








section \<open>Simple tokens inside detailed tokens\<close>

text \<open>
  C4: a simple-token-shaped substring inside the value of a detailed token is never taken
  for a token of its own. \<^verbatim>\<open>renderMaskedHtml\<close> means to skip a simple token that lies
  inside a chip, and looks for the chip before \<^verbatim>\<open>result.indexOf(match)\<close>, the first
  place where the same text occurs, not before the match itself. When the same simple
  token stands earlier in the text, outside any chip, the one inside the detailed token is
  wrapped again; when it stands later, outside any chip, it is left unwrapped.
\<close>

theorem simple_token_inside_detailed_token:
  "renderMaskedHtml (ustr ''{EMAIL_1} {ID=1, TXT='{EMAIL_1}'}'') Blocks
     = ustr ''<span class=\"mask-chip\">{EMAIL_1}</span> ''
       @ ustr ''<span class=\"mask-chip\">{ID=1, TXT='<span class=\"mask-chip\">{EMAIL_1}</span>'}</span>''
   \<and> renderMaskedHtml (ustr ''{ID=1, TXT='{EMAIL_1}'} {EMAIL_1}'') Blocks
     = ustr ''<span class=\"mask-chip\">{ID=1, TXT='{EMAIL_1}'}</span> {EMAIL_1}''"
  by code_simp

section \<open>Failures of the server are thrown\<close>

lemma andThen_simps [simp]:
  "andThen (Inl e) f = Inl e"
  "andThen (Inr x) f = f x"
  by (simp_all add: andThen_def)

lemma andThen_Inr_iff: "andThen a f = Inr r \<longleftrightarrow> (\<exists>x. a = Inr x \<and> f x = Inr r)"
  by (cases a) simp_all

lemma rejected_throws:
  "thrown (andThen (response_interceptor (Rejected err)) k)
     = Some (AppError
         (js_or (js_or (case err_response err of None \<Rightarrow> JUndefined
                        | Some r \<Rightarrow> opt_member (data r) (ustr ''message''))
                   (JStr (err_message err)))
            (JStr unknown_error))
         (err_code err) (map_option status (err_response err)))"
  by (simp add: response_interceptor_def thrown_def Let_def)

lemma handleApiResponse_failure:
  assumes "opt_member (data response) (ustr ''success'') = JBool False"
  shows "handleApiResponse response
    = Inl (AppError (js_or (opt_member (data response) (ustr ''error'')) (JStr (ustr ''API error'')))
        None None)"
proof -
  from assms obtain kvs where "data response = JObj kvs"
    by (cases "data response") (auto simp: opt_member_def)
  then show ?thesis
    using assms by (simp add: handleApiResponse_def opt_member_def)
qed

lemma success_false_throws:
  assumes "opt_member (data response) (ustr ''success'') = JBool False"
  shows "thrown (andThen (response_interceptor (Fulfilled response))
           (\<lambda>response. andThen (handleApiResponse response) k))
     = Some (AppError (js_or (opt_member (data response) (ustr ''error'')) (JStr (ustr ''API error'')))
         None None)"
    and "thrown (andThen (response_interceptor (Fulfilled response)) handleApiResponse)
     = Some (AppError (js_or (opt_member (data response) (ustr ''error'')) (JStr (ustr ''API error'')))
         None None)"
  by (simp_all add: response_interceptor_def handleApiResponse_failure [OF assms] thrown_def)

text \<open>
  C9, as the specification states it: whenever the server answers with an error status or with
  a body whose \<^verbatim>\<open>success\<close> is \<^verbatim>\<open>false\<close>, the operation throws an \<^verbatim>\<open>AppError\<close> that
  carries message, code and status. After \<^verbatim>\<open>success === false\<close> the error is made by
  \<^verbatim>\<open>new AppError(response.data.error || 'API error')\<close>: for the answer
  \<^verbatim>\<open>{success: false, error: "down"}\<close> with status 200 it carries the message \<^verbatim>\<open>down\<close>, no
  code and no status.
\<close>

theorem success_false_has_no_code_no_status:
  "getSensitiveEntities failing_server = Inl (AppError (JStr (ustr ''down'')) None None)"
  by (simp add: getSensitiveEntities_def api_request_def failing_server_def
      response_interceptor_def handleApiResponse_def opt_member_def js_or_def ustr_def)

text \<open>
  C9, amended: for each of the ten operations of \<^verbatim>\<open>apiClient\<close>, a failure of the server is
  thrown as an \<^verbatim>\<open>AppError\<close> and never returned as a value. When axios rejects the request
  (an error status, a timeout, no answer) the error carries as message the \<^verbatim>\<open>message\<close> of
  the response body, or else the message of the axios error, or else the default text; as
  code the code of the axios error; as status the status of the response, if there was one.
  When the body of a fulfilled request has \<^verbatim>\<open>success === false\<close> the error carries as
  message the \<^verbatim>\<open>error\<close> of the body, or else \<^verbatim>\<open>API error\<close>, and neither code nor
  status.
\<close>

theorem api_failures_are_thrown:
  "(srv (request_of call) = Rejected err \<longrightarrow>
      thrown_by srv call
        = Some (AppError
            (js_or (js_or (case err_response err of None \<Rightarrow> JUndefined
                           | Some r \<Rightarrow> opt_member (data r) (ustr ''message''))
                      (JStr (err_message err)))
               (JStr unknown_error))
            (err_code err) (map_option status (err_response err))))
   \<and> (srv (request_of call) = Fulfilled response
        \<and> opt_member (data response) (ustr ''success'') = JBool False \<longrightarrow>
      thrown_by srv call
        = Some (AppError
            (js_or (opt_member (data response) (ustr ''error'')) (JStr (ustr ''API error'')))
            None None))"
  by (cases call)
    (simp_all add: maskText_def demaskText_def processWithOpenRouter_def
      getSensitiveEntities_def addSensitiveEntity_def updateSensitiveEntity_def
      deleteSensitiveEntity_def getSystemPrompt_def updateSystemPrompt_def healthCheck_def
      api_request_def rejected_throws success_false_throws)

theorem api_failures_are_thrown_witness:
  "thrown_by failing_server (MaskText \<lparr>input_text = ustr ''hi'', input_systemPrompt = None\<rparr>)
     = Some (AppError (JStr (ustr ''boom'')) (Some (ustr ''ERR_BAD_RESPONSE'')) (Some 500))
   \<and> thrown_by failing_server GetSystemPrompt = Some (AppError (JStr (ustr ''down'')) None None)"
  using api_failures_are_thrown [of failing_server
      "MaskText \<lparr>input_text = ustr ''hi'', input_systemPrompt = None\<rparr>"
      "\<lparr>err_message = ustr ''Request failed with status code 500'',
        err_code = Some (ustr ''ERR_BAD_RESPONSE''),
        err_response = Some \<lparr>data = JObj [(ustr ''message'', JStr (ustr ''boom''))],
                              status = 500\<rparr>\<rparr>"]
    api_failures_are_thrown [of failing_server GetSystemPrompt _
      "\<lparr>data = JObj [(ustr ''success'', JBool False), (ustr ''error'', JStr (ustr ''down''))],
        status = 200\<rparr>"]
  by (simp add: failing_server_def opt_member_def js_or_def ustr_def)

section \<open>The entity list of a masking result\<close>

lemma handleApiResponse_Inr:
  "handleApiResponse response = Inr v \<Longrightarrow> v = data response"
  by (auto simp: handleApiResponse_def andThen_Inr_iff split: if_splits)

lemma member_Inr: "member v k = Inr x \<Longrightarrow> opt_member v k = x"
  by (simp add: opt_member_def)

lemma maskText_Inr:
  assumes "srv \<lparr>http_method = POST, url = ustr ''/mask-text'', body = TextProcessingInput_json d\<rparr>
      = Fulfilled response"
    and "maskText srv d = Inr r"
  shows "entitiesFound r = js_or (opt_member (data response) (ustr ''entities_found'')) (JArr [])"
    and "maskedText r = opt_member (data response) (ustr ''masked_text'')"
proof -
  from assms obtain apiResult masked_text entities_found processing_time
    where h: "handleApiResponse response = Inr apiResult"
      and m: "member apiResult (ustr ''masked_text'') = Inr masked_text"
        "member apiResult (ustr ''entities_found'') = Inr entities_found"
      and r: "r = \<lparr>maskedText = masked_text, entitiesFound = js_or entities_found (JArr []),
            processingTime = processing_time\<rparr>"
    unfolding maskText_def api_request_def response_interceptor_def
    by (auto simp: andThen_Inr_iff)
  have "apiResult = data response"
    using h by (rule handleApiResponse_Inr)
  with m r show "entitiesFound r = js_or (opt_member (data response) (ustr ''entities_found'')) (JArr [])"
    and "maskedText r = opt_member (data response) (ustr ''masked_text'')"
    by (simp_all add: member_Inr)
qed

lemma js_or_not_nullish: "truthy b \<Longrightarrow> js_or a b \<noteq> JUndefined \<and> js_or a b \<noteq> JNull"
  by (cases a) (auto simp: js_or_def)

text \<open>
  C10, as the specification states it: for every masking call that succeeds,
  \<^verbatim>\<open>entitiesFound\<close> of the result is a list. \<^verbatim>\<open>maskText\<close> returns
  \<^verbatim>\<open>apiResult.entities_found || []\<close>, and \<^verbatim>\<open>||\<close> passes every truthy value on: when the
  server answers with \<^verbatim>\<open>entities_found: {}\<close> the call succeeds and \<^verbatim>\<open>entitiesFound\<close> is
  that object, not a list.
\<close>

theorem entitiesFound_not_a_list:
  "maskText object_entities_server \<lparr>input_text = ustr ''Hello'', input_systemPrompt = None\<rparr>
     = Inr \<lparr>maskedText = JStr (ustr ''Hello''), entitiesFound = JObj [],
            processingTime = JUndefined\<rparr>
   \<and> \<not> is_list (JObj [])"
  by (simp add: maskText_def api_request_def object_entities_server_def response_interceptor_def
      handleApiResponse_def opt_member_def js_or_def ustr_def)

text \<open>
  C10, amended: for every masking call that succeeds, \<^verbatim>\<open>entitiesFound\<close> of the result is
  the \<^verbatim>\<open>entities_found\<close> of the response when that is truthy, and the empty list when it
  is absent, \<^verbatim>\<open>null\<close> or another falsy value. So it is never \<^verbatim>\<open>undefined\<close> or
  \<^verbatim>\<open>null\<close>, and it is a list exactly when the response gives a list or a falsy value.
\<close>

theorem maskText_entitiesFound:
  assumes "srv \<lparr>http_method = POST, url = ustr ''/mask-text'', body = TextProcessingInput_json d\<rparr>
      = Fulfilled response"
    and "maskText srv d = Inr r"
  shows "entitiesFound r
       = (if truthy (opt_member (data response) (ustr ''entities_found''))
          then opt_member (data response) (ustr ''entities_found'') else JArr [])
     \<and> entitiesFound r \<noteq> JUndefined \<and> entitiesFound r \<noteq> JNull
     \<and> (is_list (entitiesFound r) \<longleftrightarrow>
          is_list (opt_member (data response) (ustr ''entities_found''))
          \<or> \<not> truthy (opt_member (data response) (ustr ''entities_found'')))"
proof -
  let ?ef = "opt_member (data response) (ustr ''entities_found'')"
  have e: "entitiesFound r = (if truthy ?ef then ?ef else JArr [])"
    using maskText_Inr(1) [OF assms] by (simp add: js_or_def)
  have "is_list ?ef \<Longrightarrow> truthy ?ef"
    by (cases ?ef) simp_all
  then show ?thesis
    unfolding e by (cases ?ef) auto
qed

theorem maskText_entitiesFound_witness:
  "maskText bare_mask_server \<lparr>input_text = ustr ''Hello Ivan'', input_systemPrompt = None\<rparr>
     = Inr \<lparr>maskedText = JStr (ustr ''Hello {ID=1, TXT='Ivan'}''), entitiesFound = JArr [],
            processingTime = JUndefined\<rparr>
   \<and> is_list (entitiesFound
        \<lparr>maskedText = JStr (ustr ''Hello {ID=1, TXT='Ivan'}''), entitiesFound = JArr [],
         processingTime = JUndefined\<rparr>)"
proof -
  let ?d = "\<lparr>input_text = ustr ''Hello Ivan'', input_systemPrompt = None\<rparr>"
  let ?resp = "\<lparr>data = JObj [(ustr ''masked_text'', JStr (ustr ''Hello {ID=1, TXT='Ivan'}''))],
                status = 200\<rparr>"
  let ?r = "\<lparr>maskedText = JStr (ustr ''Hello {ID=1, TXT='Ivan'}''), entitiesFound = JArr [],
            processingTime = JUndefined\<rparr>"
  have a: "bare_mask_server \<lparr>http_method = POST, url = ustr ''/mask-text'',
      body = TextProcessingInput_json ?d\<rparr> = Fulfilled ?resp"
    by (simp add: bare_mask_server_def)
  have b: "maskText bare_mask_server ?d = Inr ?r"
    by (simp add: maskText_def api_request_def bare_mask_server_def response_interceptor_def
        handleApiResponse_def opt_member_def js_or_def ustr_def)
  have "opt_member (data ?resp) (ustr ''entities_found'') = JUndefined"
    by (simp add: opt_member_def ustr_def)
  then show ?thesis
    using maskText_entitiesFound [OF a b] b by simp
qed

section \<open>What demasking sends\<close>

text \<open>
  C3, as the specification states it: the demasking operation takes a mapping from its
  caller together with the text. \<^verbatim>\<open>apiClient.demaskText(maskedText)\<close> has the text as
  its only parameter, and the body of its request has the text as its only field: a server
  that answers with the body it was sent answers \<^verbatim>\<open>{maskedText: text}\<close>.
\<close>

theorem demaskText_echo:
  "demaskText echo_server (ustr ''{ID=1, TXT='Ivan'}'')
     = Inr (JObj [(ustr ''maskedText'', JStr (ustr ''{ID=1, TXT='Ivan'}''))])"
  by (simp add: demaskText_def api_request_def echo_server_def response_interceptor_def
      handleApiResponse_def opt_member_def ustr_def)

text \<open>
  C3, amended: the demasking operation exposed to callers takes the masked text alone.
  Every invocation sends the server one request, \<^verbatim>\<open>POST /demask-text\<close> with the body
  \<^verbatim>\<open>{maskedText: text}\<close>, and its outcome is decided by the answer to that request:
  no mapping is supplied by the caller.
\<close>

theorem demaskText_sends_text_only:
  "demaskText echo_server t = Inr (JObj [(ustr ''maskedText'', JStr t)])
   \<and> (srv1 \<lparr>http_method = POST, url = ustr ''/demask-text'',
              body = JObj [(ustr ''maskedText'', JStr t)]\<rparr>
        = srv2 \<lparr>http_method = POST, url = ustr ''/demask-text'',
              body = JObj [(ustr ''maskedText'', JStr t)]\<rparr>
      \<longrightarrow> demaskText srv1 t = demaskText srv2 t)"
  by (simp add: demaskText_def api_request_def echo_server_def response_interceptor_def
      andThen_def handleApiResponse_def opt_member_def ustr_def)

theorem demaskText_sends_text_only_witness:
  "demaskText echo_server (ustr ''{ID=1, TXT='Ivan'}'')
     = Inr (JObj [(ustr ''maskedText'', JStr (ustr ''{ID=1, TXT='Ivan'}''))])
   \<and> demaskText (\<lambda>req. if http_method req = POST then echo_server req else failing_server req)
         (ustr ''{ID=1, TXT='Ivan'}'')
     = demaskText echo_server (ustr ''{ID=1, TXT='Ivan'}'')"
  using demaskText_sends_text_only [of "ustr ''{ID=1, TXT='Ivan'}''"
      "\<lambda>req. if http_method req = POST then echo_server req else failing_server req" echo_server]
  by simp

section \<open>Masking two fields\<close>

lemma str_or_Nil [simp]: "str_or a [] = a"
  by (simp add: str_or_def)

lemma rejections_append:
  "rejections (xs @ ys) ps = rejections xs ps @ rejections ys ps"
  by (simp add: rejections_def)

lemma rejections_none:
  assumes "\<And>p. p \<in> set ps \<Longrightarrow> \<exists>x. p = Inr x"
  shows "rejections settled ps = []"
proof -
  have "(if i < length ps then (case ps ! i of Inl e \<Rightarrow> [e] | Inr x \<Rightarrow> []) else []) = []" for i
  proof (cases "i < length ps")
    case True
    then obtain x where "ps ! i = Inr x"
      using assms nth_mem by blast
    then show ?thesis by simp
  next
    case False
    then show ?thesis by simp
  qed
  then show ?thesis
    by (simp add: rejections_def)
qed

lemma promise_all_Inl:
  assumes "rejections [0..<length ps] ps \<noteq> []"
  shows "\<exists>e. promise_all settle_order ps = Inl e"
proof -
  have "rejections (settle_order @ [0..<length ps]) ps \<noteq> []"
    using assms by (simp add: rejections_append)
  then obtain e es where "rejections (settle_order @ [0..<length ps]) ps = e # es"
    by (cases "rejections (settle_order @ [0..<length ps]) ps") auto
  then show ?thesis
    by (simp add: promise_all_def)
qed

lemma promise_all_two:
  "promise_all settle_order [Inr a, Inr b] = Inr [a, b]"
  "\<exists>e. promise_all settle_order [Inl e1, b'] = Inl e"
  "\<exists>e. promise_all settle_order [a', Inl e2] = Inl e"
proof -
  have "rejections (settle_order @ [0..<length [Inr a, Inr b]]) [Inr a, Inr b] = []"
    by (rule rejections_none) auto
  then show "promise_all settle_order [Inr a, Inr b] = Inr [a, b]"
    by (simp add: promise_all_def)
  have two: "[0..<length [x, y]] = [0, Suc 0]" for x y :: "js_error + 'b"
    by (simp add: upt_rec)
  have "rejections [0..<length [Inl e1, b']] [Inl e1, b'] \<noteq> []"
    unfolding two by (simp add: rejections_def)
  then show "\<exists>e. promise_all settle_order [Inl e1, b'] = Inl e"
    by (rule promise_all_Inl)
  have "rejections [0..<length [a', Inl e2]] [a', Inl e2] \<noteq> []"
    unfolding two by (simp add: rejections_def)
  then show "\<exists>e. promise_all settle_order [a', Inl e2] = Inl e"
    by (rule promise_all_Inl)
qed

lemma promise_all_first_fails:
  "promise_all settle_order [Inl e1, Inr b] = Inl e1"
proof -
  have "\<exists>es. rejections (xs @ [0, 1]) [Inl e1, Inr b] = e1 # es" for xs
  proof (induction xs)
    case Nil
    show ?case by (simp add: rejections_def)
  next
    case (Cons i xs)
    then obtain es where es: "rejections (xs @ [0, 1]) [Inl e1, Inr b] = e1 # es"
      by blast
    have "rejections ((i # xs) @ [0, 1]) [Inl e1, Inr b]
        = rejections [i] [Inl e1, Inr b] @ rejections (xs @ [0, 1]) [Inl e1, Inr b]"
      using rejections_append [of "[i]" "xs @ [0, 1]"] by simp
    moreover have "rejections [i] [Inl e1, Inr b] = [] \<or> rejections [i] [Inl e1, Inr b] = [e1]"
      by (cases i) (auto simp: rejections_def nth_Cons split: nat.splits)
    ultimately show ?case
      using es by auto
  qed
  then obtain es where "rejections (settle_order @ [0, 1]) [Inl e1, Inr b] = e1 # es"
    by blast
  then show ?thesis
    by (simp add: promise_all_def upt_rec)
qed

lemma promise_all_second_fails:
  "promise_all settle_order [Inr a, Inl e2] = Inl e2"
proof -
  have "\<exists>es. rejections (xs @ [0, 1]) [Inr a, Inl e2] = e2 # es" for xs
  proof (induction xs)
    case Nil
    show ?case by (simp add: rejections_def)
  next
    case (Cons i xs)
    then obtain es where es: "rejections (xs @ [0, 1]) [Inr a, Inl e2] = e2 # es"
      by blast
    have "rejections ((i # xs) @ [0, 1]) [Inr a, Inl e2]
        = rejections [i] [Inr a, Inl e2] @ rejections (xs @ [0, 1]) [Inr a, Inl e2]"
      using rejections_append [of "[i]" "xs @ [0, 1]"] by simp
    moreover have "rejections [i] [Inr a, Inl e2] = [] \<or> rejections [i] [Inr a, Inl e2] = [e2]"
      by (cases i) (auto simp: rejections_def nth_Cons split: nat.splits)
    ultimately show ?case
      using es by auto
  qed
  then obtain es where "rejections (settle_order @ [0, 1]) [Inr a, Inl e2] = e2 # es"
    by blast
  then show ?thesis
    by (simp add: promise_all_def upt_rec)
qed

lemma promise_all_both_fail:
  "promise_all settle_order [Inl e1, Inl e2]
     = (Inl (if first_settled settle_order = 1 then e2 else e1) :: js_error + 'a list)"
proof -
  let ?ps = "[Inl e1, Inl e2] :: (js_error + 'a) list"
  have "\<exists>es. rejections (xs @ [0, 1]) ?ps = (if first_settled xs = 1 then e2 else e1) # es" for xs
  proof (induction xs)
    case Nil
    show ?case by (simp add: rejections_def)
  next
    case (Cons i xs)
    then obtain es where es:
      "rejections (xs @ [0, 1]) ?ps = (if first_settled xs = 1 then e2 else e1) # es"
      by blast
    have split: "rejections ((i # xs) @ [0, 1]) ?ps
        = rejections [i] ?ps @ rejections (xs @ [0, 1]) ?ps"
      using rejections_append [of "[i]" "xs @ [0, 1]"] by simp
    consider "i = 0" | "i = 1" | "2 \<le> i"
      by linarith
    then show ?case
    proof cases
      case 1
      then show ?thesis unfolding split by (simp add: rejections_def)
    next
      case 2
      then show ?thesis unfolding split by (simp add: rejections_def)
    next
      case 3
      then have "rejections [i] ?ps = []" "first_settled (i # xs) = first_settled xs"
        by (simp_all add: rejections_def)
      then show ?thesis unfolding split using es by simp
    qed
  qed
  then obtain es where
    "rejections (settle_order @ [0, 1]) ?ps = (if first_settled settle_order = 1 then e2 else e1) # es"
    by blast
  then show ?thesis
    by (simp add: promise_all_def upt_rec)
qed

text \<open>
  C5, as the specification states it: when the query and the context are masked by separate
  calls, the failure of one call does not keep the result of the other from being returned
  and applied. \<^verbatim>\<open>handleMaskText\<close> joins the two calls with \<^verbatim>\<open>Promise.all\<close>: with a
  server that masks the query and times out on the context, the call for the query returns
  its result, and the state keeps its old masked query and takes the error.
\<close>

theorem one_failure_discards_both:
  "maskText query_only_server
       \<lparr>input_text = queryText two_fields, input_systemPrompt = Some (maskingPrompt two_fields)\<rparr>
     = Inr \<lparr>maskedText = JStr (ustr ''Hello {ID=1, TXT='Ivan'}''), entitiesFound = JArr [],
            processingTime = JUndefined\<rparr>
   \<and> maskedQueryText (handleMaskText query_only_server [0, 1] two_fields) = JStr []
   \<and> error (handleMaskText query_only_server [0, 1] two_fields)
       = Some (AppError (JStr (ustr ''timeout of 120000ms exceeded''))
                 (Some (ustr ''ECONNABORTED'')) None)"
  by (simp add: two_fields_def handleMaskText_def useMaskText_mutateAsync_def maskText_def
      api_request_def query_only_server_def TextProcessingInput_json_def optional_field_def
      response_interceptor_def handleApiResponse_def opt_member_def js_or_def
      promise_all_def rejections_def trim_def is_white_space_def is_line_terminator_def
      ustr_def upt_rec Let_def)

text \<open>
  C5, amended: when \<^verbatim>\<open>handleMaskText\<close> masks the query and the context, each by its own
  call, every call either returns a full result or fails. When both calls succeed, the two
  masked texts are applied and the error is cleared. When one of them fails, neither masked
  text is applied, also not that of the call that succeeded: the state changes in its error
  only, which becomes the error of the failed call, and when both fail, the error of the call
  that failed first.
\<close>

theorem handleMaskText_all_or_nothing:
  assumes "trim (queryText s) \<noteq> []" and "trim (contextText s) \<noteq> []"
    and "maskText srv \<lparr>input_text = queryText s, input_systemPrompt = Some (maskingPrompt s)\<rparr> = q"
    and "maskText srv \<lparr>input_text = contextText s, input_systemPrompt = Some (maskingPrompt s)\<rparr> = c"
  shows "(q = Inr rq \<and> c = Inr rc \<longrightarrow>
            handleMaskText srv settle_order s
              = s\<lparr>error := None, maskedQueryText := maskedText rq,
                  maskedContextText := maskedText rc\<rparr>)
     \<and> (q = Inl qe \<and> c = Inr rc \<longrightarrow> handleMaskText srv settle_order s = s\<lparr>error := Some qe\<rparr>)
     \<and> (q = Inr rq \<and> c = Inl ce \<longrightarrow> handleMaskText srv settle_order s = s\<lparr>error := Some ce\<rparr>)
     \<and> (q = Inl qe \<and> c = Inl ce \<longrightarrow>
            handleMaskText srv settle_order s
              = s\<lparr>error := Some (if first_settled settle_order = 1 then ce else qe)\<rparr>)"
  using assms
  by (auto simp: handleMaskText_def useMaskText_mutateAsync_def promise_all_two(1)
      promise_all_first_fails promise_all_second_fails promise_all_both_fail apply_result_def)

theorem handleMaskText_all_or_nothing_witness:
  "handleMaskText bare_mask_server [1, 0] two_fields
     = two_fields\<lparr>error := None,
         maskedQueryText := JStr (ustr ''Hello {ID=1, TXT='Ivan'}''),
         maskedContextText := JStr (ustr ''Hello {ID=1, TXT='Ivan'}'')\<rparr>
   \<and> handleMaskText query_only_server [1, 0] two_fields
     = two_fields\<lparr>error := Some (AppError (JStr (ustr ''timeout of 120000ms exceeded''))
                                  (Some (ustr ''ECONNABORTED'')) None)\<rparr>
   \<and> handleMaskText failing_server [1, 0] two_fields
     = two_fields\<lparr>error := Some (AppError (JStr (ustr ''boom'')) (Some (ustr ''ERR_BAD_RESPONSE''))
                                  (Some 500))\<rparr>"
proof -
  have t: "trim (queryText two_fields) \<noteq> []" "trim (contextText two_fields) \<noteq> []"
    by (simp_all add: two_fields_def trim_def is_white_space_def is_line_terminator_def ustr_def)
  let ?r = "\<lparr>maskedText = JStr (ustr ''Hello {ID=1, TXT='Ivan'}''), entitiesFound = JArr [],
            processingTime = JUndefined\<rparr>"
  let ?timeout = "AppError (JStr (ustr ''timeout of 120000ms exceeded''))
      (Some (ustr ''ECONNABORTED'')) None"
  let ?boom = "AppError (JStr (ustr ''boom'')) (Some (ustr ''ERR_BAD_RESPONSE'')) (Some 500)"
  have ok: "maskText bare_mask_server d = Inr ?r" for d
    by (simp add: maskText_def api_request_def bare_mask_server_def response_interceptor_def
        handleApiResponse_def opt_member_def js_or_def ustr_def)
  have good: "maskText query_only_server
      \<lparr>input_text = queryText two_fields, input_systemPrompt = Some (maskingPrompt two_fields)\<rparr>
      = Inr \<lparr>maskedText = JStr (ustr ''Hello {ID=1, TXT='Ivan'}''), entitiesFound = JArr [],
             processingTime = JUndefined\<rparr>"
    by (simp add: two_fields_def maskText_def api_request_def query_only_server_def
        TextProcessingInput_json_def optional_field_def response_interceptor_def
        handleApiResponse_def opt_member_def js_or_def ustr_def)
  have bad: "maskText query_only_server
      \<lparr>input_text = contextText two_fields, input_systemPrompt = Some (maskingPrompt two_fields)\<rparr>
      = Inl ?timeout"
    by (simp add: two_fields_def maskText_def api_request_def query_only_server_def
        TextProcessingInput_json_def optional_field_def response_interceptor_def js_or_def
        ustr_def Let_def)
  have boom: "maskText failing_server d = Inl ?boom" for d
    by (simp add: maskText_def api_request_def failing_server_def response_interceptor_def
        opt_member_def js_or_def ustr_def Let_def)
  show ?thesis
    using handleMaskText_all_or_nothing [where s = two_fields and srv = bare_mask_server
        and settle_order = "[1, 0]" and rq = ?r and rc = ?r, OF t refl refl]
      handleMaskText_all_or_nothing [where s = two_fields and srv = query_only_server
        and settle_order = "[1, 0]" and rq = ?r and ce = ?timeout, OF t refl refl]
      handleMaskText_all_or_nothing [where s = two_fields and srv = failing_server
        and settle_order = "[1, 0]" and qe = ?boom and ce = ?boom, OF t refl refl]
      ok good bad boom
    by simp
qed

section \<open>Invalidation of the cached dictionary\<close>

lemma useMutation_Inr:
  "(res, cache') = useMutation mutationFn onSuccess srv v cache \<Longrightarrow> res = Inr x
    \<Longrightarrow> cache' = snd (onSuccess x cache)"
  by (cases "mutationFn srv v"; cases "onSuccess (projr (mutationFn srv v)) cache";
      cases "fst (onSuccess (projr (mutationFn srv v)) cache)")
    (auto simp: useMutation_def)

lemma invalidated_entry:
  assumes "cache queryKeys_sensitiveEntities = Some q"
  shows "invalidateQueries queryKeys_sensitiveEntities cache queryKeys_sensitiveEntities
    = Some (q\<lparr>isInvalidated := True, isFetching := isFetching q \<or> 0 < observers q\<rparr>)"
  using assms by (simp add: invalidateQueries_def partialMatchKey_def)

lemma read_invalidated:
  assumes "cache queryKeys_sensitiveEntities = Some q" and "isInvalidated q"
  shows "fst (useSensitiveEntities now cache) = query_data q"
    and "snd (useSensitiveEntities now cache) queryKeys_sensitiveEntities
      = Some (q\<lparr>queryFn := getSensitiveEntities, observers := Suc (observers q),
               isFetching := True\<rparr>)"
proof -
  show "fst (useSensitiveEntities now cache) = query_data q"
    using assms(1) by (simp add: useSensitiveEntities_def useQuery_def Let_def)
  have "shouldFetchOnMount (q\<lparr>queryFn := getSensitiveEntities\<rparr>) (5 * 60 * 1000) now"
    using assms(2) by (cases "dataUpdatedAt q = 0") (simp_all add: shouldFetchOnMount_def isStaleByTime_def)
  then show "snd (useSensitiveEntities now cache) queryKeys_sensitiveEntities
      = Some (q\<lparr>queryFn := getSensitiveEntities, observers := Suc (observers q),
               isFetching := True\<rparr>)"
    using assms(1) by (simp add: useSensitiveEntities_def useQuery_def Let_def)
qed

lemma fetch_settles_Inr:
  assumes "cache queryKey = Some q" and "isFetching q" and "queryFn q srv = Inr d"
  shows "fetch_settles queryKey srv now cache queryKey
    = Some (q\<lparr>query_data := d, dataUpdatedAt := now, isInvalidated := False, isFetching := False\<rparr>)"
  using assms by (simp add: fetch_settles_def)

lemma fetch_settles_Inl:
  assumes "cache queryKey = Some q" and "isFetching q" and "queryFn q srv = Inl e"
  shows "fetch_settles queryKey srv now cache queryKey = Some (q\<lparr>isFetching := False\<rparr>)"
  using assms by (simp add: fetch_settles_def)

text \<open>
  C8, as the specification states it: after every successful mutation of the dictionary the
  cached list is invalidated, so every later read observes the mutated dictionary, with no
  window in which the stale list is seen. The hooks invalidate the query without waiting for
  its refetch, and \<^verbatim>\<open>useQuery\<close> gives a component the cached data at once, stale or not:
  after an entity was added to a dictionary whose cached list is empty, a read gets the empty
  list, while the server answers with the entity.
\<close>

theorem stale_list_after_mutation:
  "fst (useAddSensitiveEntity dictionary_server
          \<lparr>input_name = ustr ''Ivan'', input_placeholder = ustr ''PERSON''\<rparr> empty_list_cached)
     = Inr (JObj [(ustr ''id'', JStr (ustr ''1'')), (ustr ''name'', JStr (ustr ''Ivan'')),
                  (ustr ''placeholder'', JStr (ustr ''PERSON''))])
   \<and> fst (useSensitiveEntities 2
        (snd (useAddSensitiveEntity dictionary_server
               \<lparr>input_name = ustr ''Ivan'', input_placeholder = ustr ''PERSON''\<rparr>
               empty_list_cached)))
     = JArr []
   \<and> getSensitiveEntities dictionary_server
     = Inr (JArr [JObj [(ustr ''id'', JStr (ustr ''1'')), (ustr ''name'', JStr (ustr ''Ivan'')),
                        (ustr ''placeholder'', JStr (ustr ''PERSON''))]])"
  by (simp add: useAddSensitiveEntity_def useMutation_def addSensitiveEntity_def
      getSensitiveEntities_def api_request_def dictionary_server_def response_interceptor_def
      handleApiResponse_def opt_member_def useSensitiveEntities_def useQuery_def
      invalidateQueries_def partialMatchKey_def empty_list_cached_def
      queryKeys_sensitiveEntities_def ustr_def Let_def)

text \<open>
  C8, amended: after every successful mutation of the dictionary (add, update or delete) the
  cache is the old one with every query under the key \<^verbatim>\<open>sensitive-entities\<close> marked
  invalidated, and refetching when a component observes it; the cached list itself is not
  changed. A component that reads the list afterwards, at any time, is given the old list at
  once, and a refetch is in flight. When that refetch succeeds the cache holds the list that
  the server then answers, no longer invalidated; when it fails the old list stays. (A
  masking call never reads the cache: \<^verbatim>\<open>maskText\<close> above is given the server only.)
\<close>

theorem mutation_invalidates_entities:
  assumes "(res, cache') = useAddSensitiveEntity srv d cache
         \<or> (res, cache') = useUpdateSensitiveEntity srv (i, u) cache
         \<or> (res, cache') = useDeleteSensitiveEntity srv i cache"
    and "res = Inr x"
    and "cache queryKeys_sensitiveEntities = Some q"
  shows "cache' = invalidateQueries queryKeys_sensitiveEntities cache
     \<and> cache' queryKeys_sensitiveEntities
         = Some (q\<lparr>isInvalidated := True, isFetching := isFetching q \<or> 0 < observers q\<rparr>)
     \<and> fst (useSensitiveEntities now cache') = query_data q
     \<and> snd (useSensitiveEntities now cache') queryKeys_sensitiveEntities
         = Some (q\<lparr>isInvalidated := True, queryFn := getSensitiveEntities,
                  observers := Suc (observers q), isFetching := True\<rparr>)
     \<and> (getSensitiveEntities srv' = Inr list \<longrightarrow>
          fetch_settles queryKeys_sensitiveEntities srv' later
              (snd (useSensitiveEntities now cache')) queryKeys_sensitiveEntities
            = Some (q\<lparr>query_data := list, dataUpdatedAt := later, isInvalidated := False,
                     queryFn := getSensitiveEntities, observers := Suc (observers q),
                     isFetching := False\<rparr>))
     \<and> (getSensitiveEntities srv' = Inl e \<longrightarrow>
          fetch_settles queryKeys_sensitiveEntities srv' later
              (snd (useSensitiveEntities now cache')) queryKeys_sensitiveEntities
            = Some (q\<lparr>isInvalidated := True, queryFn := getSensitiveEntities,
                     observers := Suc (observers q), isFetching := False\<rparr>))"
proof -
  let ?k = queryKeys_sensitiveEntities
  let ?q1 = "q\<lparr>isInvalidated := True, isFetching := isFetching q \<or> 0 < observers q\<rparr>"
  let ?q2 = "?q1\<lparr>queryFn := getSensitiveEntities, observers := Suc (observers ?q1),
      isFetching := True\<rparr>"
  have c: "cache' = invalidateQueries ?k cache"
    using assms(1)
    unfolding useAddSensitiveEntity_def useUpdateSensitiveEntity_def useDeleteSensitiveEntity_def
    by (elim disjE) (drule useMutation_Inr [OF _ assms(2)], simp)+
  have e1: "cache' ?k = Some ?q1"
    unfolding c using assms(3) by (rule invalidated_entry)
  have inv: "isInvalidated ?q1"
    by simp
  have shown: "fst (useSensitiveEntities now cache') = query_data q"
    using read_invalidated(1) [where cache = cache' and q = ?q1, OF e1 inv] by simp
  have e2: "snd (useSensitiveEntities now cache') ?k = Some ?q2"
    using read_invalidated(2) [where cache = cache' and q = ?q1, OF e1 inv] by simp
  have f: "isFetching ?q2" and fn: "queryFn ?q2 = getSensitiveEntities"
    by simp_all
  have ok: "fetch_settles ?k srv' later (snd (useSensitiveEntities now cache')) ?k
      = Some (?q2\<lparr>query_data := list, dataUpdatedAt := later, isInvalidated := False,
                 isFetching := False\<rparr>)"
    if "getSensitiveEntities srv' = Inr list"
    using fetch_settles_Inr [where cache = "snd (useSensitiveEntities now cache')" and q = ?q2
        and queryKey = ?k and srv = srv' and d = list and now = later, OF e2 f] that fn
    by simp
  have bad: "fetch_settles ?k srv' later (snd (useSensitiveEntities now cache')) ?k
      = Some (?q2\<lparr>isFetching := False\<rparr>)"
    if "getSensitiveEntities srv' = Inl e"
    using fetch_settles_Inl [where cache = "snd (useSensitiveEntities now cache')" and q = ?q2
        and queryKey = ?k and srv = srv' and e = e and now = later, OF e2 f] that fn
    by simp
  show ?thesis
    using c e1 shown e2 ok bad by simp
qed

theorem mutation_invalidates_entities_witness:
  "fst (useSensitiveEntities 2
      (snd (useAddSensitiveEntity dictionary_server
             \<lparr>input_name = ustr ''Ivan'', input_placeholder = ustr ''PERSON''\<rparr>
             empty_list_cached))) = JArr []
   \<and> map_option query_data
       (fetch_settles queryKeys_sensitiveEntities dictionary_server 3
          (snd (useSensitiveEntities 2
             (snd (useAddSensitiveEntity dictionary_server
                    \<lparr>input_name = ustr ''Ivan'', input_placeholder = ustr ''PERSON''\<rparr>
                    empty_list_cached)))) queryKeys_sensitiveEntities)
     = Some (JArr [JObj [(ustr ''id'', JStr (ustr ''1'')), (ustr ''name'', JStr (ustr ''Ivan'')),
                         (ustr ''placeholder'', JStr (ustr ''PERSON''))]])"
proof -
  let ?d = "\<lparr>input_name = ustr ''Ivan'', input_placeholder = ustr ''PERSON''\<rparr>"
  let ?A = "useAddSensitiveEntity dictionary_server ?d empty_list_cached"
  let ?q = "\<lparr>query_data = JArr [], dataUpdatedAt = 1, isInvalidated = False, isFetching = False,
        observers = 1, queryFn = getSensitiveEntities\<rparr>"
  have x: "fst ?A = Inr (JObj [(ustr ''id'', JStr (ustr ''1'')), (ustr ''name'', JStr (ustr ''Ivan'')),
                  (ustr ''placeholder'', JStr (ustr ''PERSON''))])"
    by (simp add: useAddSensitiveEntity_def useMutation_def addSensitiveEntity_def api_request_def
        dictionary_server_def response_interceptor_def handleApiResponse_def opt_member_def
        ustr_def)
  have get: "getSensitiveEntities dictionary_server
     = Inr (JArr [JObj [(ustr ''id'', JStr (ustr ''1'')), (ustr ''name'', JStr (ustr ''Ivan'')),
                        (ustr ''placeholder'', JStr (ustr ''PERSON''))]])"
    by (simp add: getSensitiveEntities_def api_request_def dictionary_server_def
        response_interceptor_def handleApiResponse_def opt_member_def ustr_def)
  have q: "empty_list_cached queryKeys_sensitiveEntities = Some ?q"
    by (simp add: empty_list_cached_def)
  have h: "(fst ?A, snd ?A) = ?A
      \<or> (fst ?A, snd ?A) = useUpdateSensitiveEntity dictionary_server
            (ustr ''1'', \<lparr>partial_name = None, partial_placeholder = None\<rparr>) empty_list_cached
      \<or> (fst ?A, snd ?A) = useDeleteSensitiveEntity dictionary_server (ustr ''1'') empty_list_cached"
    by simp
  let ?list = "JArr [JObj [(ustr ''id'', JStr (ustr ''1'')), (ustr ''name'', JStr (ustr ''Ivan'')),
                        (ustr ''placeholder'', JStr (ustr ''PERSON''))]]"
  note m = mutation_invalidates_entities [OF h x q, where srv' = dictionary_server and now = 2
      and later = 3 and list = ?list]
  have shown: "fst (useSensitiveEntities 2 (snd ?A)) = query_data ?q"
    using m by blast
  have "fetch_settles queryKeys_sensitiveEntities dictionary_server 3
      (snd (useSensitiveEntities 2 (snd ?A))) queryKeys_sensitiveEntities
    = Some (?q\<lparr>query_data := ?list, dataUpdatedAt := 3, isInvalidated := False,
                     queryFn := getSensitiveEntities, observers := Suc (observers ?q),
                     isFetching := False\<rparr>)"
    using m get by blast
  then show ?thesis
    using shown by simp
qed

section \<open>The round trip of the masking engine\<close>

subsection \<open>Fresh identifiers\<close>

lemma digit_is_digit: "d < 10 \<Longrightarrow> is_digit (0x30 + of_nat d)"
proof -
  assume "d < 10"
  then have "d \<in> {0, 1, 2, 3, 4, 5, 6, 7, 8, 9}"
    by auto
  then show ?thesis
    by (auto simp: is_digit_def)
qed



lemma decimal_digits: "c \<in> set (decimal n) \<Longrightarrow> is_digit c"
proof (induction n rule: decimal.induct)
  case (1 n)
  show ?case
  proof (cases "n < 10")
    case True
    with "1.prems" show ?thesis
      by (subst (asm) decimal.simps) (simp add: digit_is_digit)
  next
    case False
    with "1.prems" have "c \<in> set (decimal (n div 10)) \<or> c = 0x30 + of_nat (n mod 10)"
      by (subst (asm) decimal.simps) auto
    moreover have "is_digit (0x30 + of_nat (n mod 10))"
      by (rule digit_is_digit) simp
    ultimately show ?thesis
      using "1.IH" [OF False] by blast
  qed
qed


lemma decimal_all_digits: "list_all is_digit (decimal k)"
  by (simp add: list_all_iff decimal_digits)




subsection \<open>Reading a token\<close>













lemma demask_plain_pieces [simp]:
  "concat (map (demask_piece mapping \<circ> Character) plain) = plain"
  by (induction plain) simp_all

lemma named_plain_pieces [simp]:
  "named_pieces mapping (map Character plain @ ps)
     = map_option (append plain) (named_pieces mapping ps)"
  by (induction plain) (simp_all add: option.map_comp comp_def option.map_ident)




subsection \<open>The spans that are replaced\<close>








subsection \<open>One identifier, one value\<close>








subsection \<open>Demasking what the encoder built\<close>








subsection \<open>Scenario A\<close>

text \<open>
  On Scenario A the encoder gives the masked text and the entities that the specification
  lists; with a dictionary that holds the name under the identifier 2, the name keeps that
  identifier and the address gets the next free number.
\<close>

lemma encode_scenario_A:
  "encode numbered_label [] scenario_text scenario_spans =
     \<lparr>encoded_maskedText = ustr ''{ID=1, TXT='' @ [0x27] @ ivan_petrov @ [0x27]
          @ ustr ''}, email {ID=2, TXT='ivan@example.com'}'',
      encoded_entitiesFound =
        [\<lparr>entity_id = ustr ''1'', entity_name = ivan_petrov,
          entity_placeholder = ustr ''ENTITY_1'', entity_category = Some (ustr ''person'')\<rparr>,
         \<lparr>entity_id = ustr ''2'', entity_name = ustr ''ivan@example.com'',
          entity_placeholder = ustr ''ENTITY_2'', entity_category = Some (ustr ''email'')\<rparr>],
      encoded_processingTime = None\<rparr>"
  by code_simp

lemma encode_scenario_A_dictionary:
  "encode numbered_label person_dictionary scenario_text scenario_spans =
     \<lparr>encoded_maskedText = ustr ''{ID=2, TXT='' @ [0x27] @ ivan_petrov @ [0x27]
          @ ustr ''}, email {ID=1, TXT='ivan@example.com'}'',
      encoded_entitiesFound =
        [\<lparr>entity_id = ustr ''2'', entity_name = ivan_petrov,
          entity_placeholder = ustr ''PERSON'', entity_category = Some (ustr ''person'')\<rparr>,
         \<lparr>entity_id = ustr ''1'', entity_name = ustr ''ivan@example.com'',
          entity_placeholder = ustr ''ENTITY_1'', entity_category = Some (ustr ''email'')\<rparr>],
      encoded_processingTime = None\<rparr>"
  by code_simp

subsection \<open>The round trip\<close>

text \<open>
  The pattern of the repository reads a token as the engine does: it gives back the value
  \<^verbatim>\<open>O'Brien\<close> from between apostrophes, and it ends a token inside a value in which the
  quote of the token is followed by a closing brace, whichever of the two quotes that is.
\<close>

lemma pattern_ends_token_early:
  "extractPlaceholdersFromMasked (detailed_token (ustr ''1'') 0x27 quotes_and_braces)
     = [0x22, 0x7D, 0x27, 0x7D]
   \<and> extractPlaceholdersFromMasked (detailed_token (ustr ''1'') 0x22 quotes_and_braces)
     = [0x27, 0x7D, 0x22, 0x7D]
   \<and> extractPlaceholdersFromMasked (detailed_token (ustr ''1'') 0x27 (ustr ''O'Brien''))
     = ustr ''O'Brien''"
  by code_simp




end
